theory Spec2Isabelle
  imports Main "HOL-Library.Word" "HOL-Library.AList"
begin

section \<open>Metric records (package metric)\<close>

text \<open>
  A metric carries a name, a type tag (a plain string in the source: \<open>gauge\<close>,
  \<open>counter\<close> or \<open>cumcounter\<close>), a float64 value and a dimension map. The value type is
  a parameter of the model, since only its rendering by the \<open>%f\<close> verb matters here.
  A Go map is modelled as an association list with distinct keys; the order of the list
  stands for the order in which a \<open>range\<close> loop happens to visit the map.
\<close>

record 'v Metric =
  Name :: string
  MetricType :: string
  Value :: 'v
  Dimensions :: "(string \<times> string) list"

definition Gauge :: string where "Gauge = ''gauge''"
definition Counter :: string where "Counter = ''counter''"
definition CumulativeCounter :: string where "CumulativeCounter = ''cumcounter''"

definition GetDimensionValue :: "'v Metric \<Rightarrow> string \<Rightarrow> string option" where
  "GetDimensionValue m dimension = map_of (Dimensions m) dimension"

definition AddDimension :: "string \<Rightarrow> string \<Rightarrow> 'v Metric \<Rightarrow> 'v Metric" where
  "AddDimension name v m = m\<lparr>Dimensions := AList.update name v (Dimensions m)\<rparr>"

definition RemoveDimension :: "string \<Rightarrow> 'v Metric \<Rightarrow> 'v Metric" where
  "RemoveDimension name m = m\<lparr>Dimensions := AList.delete name (Dimensions m)\<rparr>"

text \<open>
  The constructors of the package; the methods that test for a control marker have the
  same names in the source and keep them below.
\<close>

definition metric_New :: "string \<Rightarrow> ('v::zero) Metric" where
  "metric_New name = \<lparr>Name = name, MetricType = ''gauge'', Value = 0, Dimensions = []\<rparr>"

definition metric_WithValue :: "string \<Rightarrow> 'v \<Rightarrow> ('v::zero) Metric" where
  "metric_WithValue name v = (metric_New name)\<lparr>Value := v\<rparr>"

definition metric_Sentinel :: "('v::zero) Metric" where
  "metric_Sentinel = metric_WithValue ''fullerite.emit_now'' 0"

definition metric_BeginCollection :: "string \<Rightarrow> ('v::zero) Metric" where
  "metric_BeginCollection collector =
     AddDimension ''collector'' collector (metric_WithValue ''fullerite.begin_collection'' 0)"

definition metric_EndCollection :: "string \<Rightarrow> ('v::zero) Metric" where
  "metric_EndCollection collector =
     AddDimension ''collector'' collector (metric_WithValue ''fullerite.end_collection'' 0)"

definition Sentinel :: "'v Metric \<Rightarrow> bool" where
  "Sentinel m = (Name m = ''fullerite.emit_now'')"

definition BeginCollection :: "'v Metric \<Rightarrow> bool" where
  "BeginCollection m = (Name m = ''fullerite.begin_collection'')"

definition EndCollection :: "'v Metric \<Rightarrow> bool" where
  "EndCollection m = (Name m = ''fullerite.end_collection'')"

section \<open>Runtime library functions used by the handlers\<close>

text \<open>
  Go strings are byte sequences; \<open>string\<close> (a list of 8-bit characters) models them
  byte for byte. The functions of this section belong to Go's standard library, not to
  the repository; they are written out here as the library defines them, on natural
  numbers, with masks and shifts expressed by \<open>mod\<close>, \<open>div\<close> and multiplication.
\<close>

definition RuneError :: nat where "RuneError = 0xFFFD"

text \<open>
  \<open>utf8.DecodeRuneInString\<close>: the first rune of a string and its width in bytes. The
  library looks the first byte up in two tables, which give the length of the sequence
  it starts (\<open>firstSize\<close>) and the range accepted for the second byte.
\<close>

definition firstSize :: "nat \<Rightarrow> nat" where
  "firstSize s0 = (if s0 < 0xE0 then 2 else if s0 < 0xF0 then 3 else 4)"

definition acceptLo :: "nat \<Rightarrow> nat" where
  "acceptLo s0 = (if s0 = 0xE0 then 0xA0 else if s0 = 0xF0 then 0x90 else 0x80)"

definition acceptHi :: "nat \<Rightarrow> nat" where
  "acceptHi s0 = (if s0 = 0xED then 0x9F else if s0 = 0xF4 then 0x8F else 0xBF)"

fun DecodeRuneInString :: "string \<Rightarrow> nat \<times> nat" where
  "DecodeRuneInString [] = (RuneError, 0)"
| "DecodeRuneInString (c0 # rest) =
     (let s0 = (of_char c0 :: nat) in
      if s0 < 0x80 then (s0, 1)
      else if s0 < 0xC2 \<or> 0xF4 < s0 then (RuneError, 1)
      else if length rest + 1 < firstSize s0 then (RuneError, 1)
      else
        (let s1 = (of_char (rest ! 0) :: nat) in
         if s1 < acceptLo s0 \<or> acceptHi s0 < s1 then (RuneError, 1)
         else if firstSize s0 \<le> 2 then ((s0 mod 32) * 64 + s1 mod 64, 2)
         else
           (let s2 = (of_char (rest ! 1) :: nat) in
            if s2 < 0x80 \<or> 0xBF < s2 then (RuneError, 1)
            else if firstSize s0 \<le> 3
              then ((s0 mod 16) * 4096 + (s1 mod 64) * 64 + s2 mod 64, 3)
            else
              (let s3 = (of_char (rest ! 2) :: nat) in
               if s3 < 0x80 \<or> 0xBF < s3 then (RuneError, 1)
               else ((s0 mod 8) * 262144 + (s1 mod 64) * 4096
                       + (s2 mod 64) * 64 + s3 mod 64, 4)))))"

declare DecodeRuneInString.simps [simp del]

text \<open>The conversion \<open>string(r)\<close> of a rune: its UTF-8 encoding, U+FFFD if invalid.\<close>

definition string_of_rune :: "nat \<Rightarrow> string" where
  "string_of_rune r =
     (if r \<le> 0x7F then [char_of r]
      else if r \<le> 0x7FF then [char_of (0xC0 + r div 64), char_of (0x80 + r mod 64)]
      else
        (let q = (if 0x10FFFF < r \<or> (0xD800 \<le> r \<and> r \<le> 0xDFFF) then RuneError else r) in
         if q \<le> 0xFFFF
         then [char_of (0xE0 + q div 4096), char_of (0x80 + (q div 64) mod 64),
               char_of (0x80 + q mod 64)]
         else [char_of (0xF0 + q div 262144), char_of (0x80 + (q div 4096) mod 64),
               char_of (0x80 + (q div 64) mod 64), char_of (0x80 + q mod 64)]))"

text \<open>
  \<open>unicode.ToLower\<close>: ASCII is handled in line; every other rune is looked up in the
  Unicode case tables, which are the parameter \<open>caseTable\<close>.
\<close>

definition unicode_ToLower :: "(nat \<Rightarrow> nat) \<Rightarrow> nat \<Rightarrow> nat" where
  "unicode_ToLower caseTable r =
     (if r \<le> 0x7F then (if 0x41 \<le> r \<and> r \<le> 0x5A then r + 0x20 else r)
      else caseTable r)"

text \<open>Durations (\<open>time.Duration\<close>) are int64 nanoseconds.\<close>

type_synonym Duration = "64 word"

definition Second :: Duration where "Second = 1000000000"

text \<open>The \<open>%d\<close> verb of \<open>fmt.Sprintf\<close> on an integer.\<close>

fun digits10 :: "nat \<Rightarrow> string" where
  "digits10 n = (if n < 10 then [char_of (48 + n)]
                 else digits10 (n div 10) @ [char_of (48 + n mod 10)])"

declare digits10.simps [simp del]

definition sprintf_d :: "int \<Rightarrow> string" where
  "sprintf_d i = (if i < 0 then CHR ''-'' # digits10 (nat (- i)) else digits10 (nat i))"

text \<open>
  The \<open>%f\<close> verb on a float64 that holds an integer (of magnitude below \<open>2^53\<close>):
  the integer and six zero decimals. The models take the rendering of values as a
  parameter; this is the instance used where a concrete run is evaluated.
\<close>

definition sprintf_f_integral :: "int \<Rightarrow> string" where
  "sprintf_f_integral i = sprintf_d i @ ''.000000''"

section \<open>Exposition serializer (Prometheus handler)\<close>

text \<open>
  A \<open>strings.Replacer\<close> whose patterns are all single bytes rewrites its argument byte
  by byte.
\<close>

definition labelEscaper_byte :: "char \<Rightarrow> string" where
  "labelEscaper_byte c =
     (if c = CHR 0x5C then [CHR 0x5C, CHR 0x5C]
      else if c = CHR 0x0A then [CHR 0x5C, CHR ''n'']
      else if c = CHR 0x22 then [CHR 0x5C, CHR 0x22]
      else [c])"

definition labelEscaper_Replace :: "string \<Rightarrow> string" where
  "labelEscaper_Replace s = concat (map labelEscaper_byte s)"

definition nameEscaper_byte :: "char \<Rightarrow> string" where
  "nameEscaper_byte c =
     (if c = CHR ''$'' then []
      else if c = CHR ''.'' then ''_''
      else if c = CHR ''-'' then ''_''
      else if c = CHR ''/'' then []
      else if c = CHR 0x27 then []
      else if c = CHR '' '' then ''_''
      else [c])"

definition nameEscaper_Replace :: "string \<Rightarrow> string" where
  "nameEscaper_Replace s = concat (map nameEscaper_byte s)"

text \<open>
  \<open>nameMatcher\<close> is the compiled expression \<open>[a-zA-Z_:][a-zA-Z0-9_:]*\<close> and the code
  asks \<open>MatchString\<close>, which reports whether the string \<^emph>\<open>contains\<close> a match. A match
  starts at a position holding a character of the first class; the starred class then
  matches zero or more characters, so it never fails.
\<close>

definition nameFirstClass :: "char \<Rightarrow> bool" where
  "nameFirstClass c =
     (let n = (of_char c :: nat) in
      (0x61 \<le> n \<and> n \<le> 0x7A) \<or> (0x41 \<le> n \<and> n \<le> 0x5A) \<or> c = CHR ''_'' \<or> c = CHR '':'')"

definition nameRestClass :: "char \<Rightarrow> bool" where
  "nameRestClass c =
     (let n = (of_char c :: nat) in
      (0x61 \<le> n \<and> n \<le> 0x7A) \<or> (0x41 \<le> n \<and> n \<le> 0x5A) \<or> (0x30 \<le> n \<and> n \<le> 0x39)
      \<or> c = CHR ''_'' \<or> c = CHR '':'')"

fun nameMatcher_matchAt :: "string \<Rightarrow> bool" where
  "nameMatcher_matchAt [] = False"
| "nameMatcher_matchAt (c # cs) = nameFirstClass c"

fun nameMatcher_MatchString :: "string \<Rightarrow> bool" where
  "nameMatcher_MatchString [] = False"
| "nameMatcher_MatchString (c # cs) =
     (nameMatcher_matchAt (c # cs) \<or> nameMatcher_MatchString cs)"

text \<open>
  The Prometheus data model, which the comments of the source quote, asks that the
  \<^emph>\<open>whole\<close> name have the shape \<open>[a-zA-Z_:][a-zA-Z0-9_:]*\<close>. This predicate follows those
  words; it is not what the code computes.
\<close>

fun validMetricName :: "string \<Rightarrow> bool" where
  "validMetricName [] = False"
| "validMetricName (c # cs) = (nameFirstClass c \<and> list_all nameRestClass cs)"

definition lowerFirst :: "(nat \<Rightarrow> nat) \<Rightarrow> string \<Rightarrow> string" where
  "lowerFirst caseTable s =
     (if s = [] then []
      else (case DecodeRuneInString s of
              (r, n) \<Rightarrow> string_of_rune (unicode_ToLower caseTable r) @ drop n s))"

text \<open>The name part of \<open>getMetricKey\<close> and of the type declarations.\<close>

definition sanitize :: "(nat \<Rightarrow> nat) \<Rightarrow> string \<Rightarrow> string" where
  "sanitize caseTable x = lowerFirst caseTable (nameEscaper_Replace x)"

text \<open>
  \<open>dimensionsToString\<close>: the loop over the map carries the text built so far and the
  separator to put before the next pair.
\<close>

definition dimensionsToString :: "(string \<times> string) list \<Rightarrow> string" where
  "dimensionsToString dims =
     (if length dims = 0 then ''{}''
      else
        (case foldl (\<lambda>(output, seperator) (k, v).
                       (output @ seperator @ k @ [CHR ''='', CHR 0x22]
                          @ labelEscaper_Replace v @ [CHR 0x22], '',''))
                ([], ''{'') dims of
           (output, seperator) \<Rightarrow> output @ ''}''))"

definition getMetricKey :: "(nat \<Rightarrow> nat) \<Rightarrow> 'v Metric \<Rightarrow> string" where
  "getMetricKey caseTable m =
     lowerFirst caseTable (nameEscaper_Replace (Name m)) @ dimensionsToString (Dimensions m)"

text \<open>
  The label block as the exposition format describes it: the pairs \<open>k="v"\<close>, joined by
  commas and enclosed in braces, where in a value a backslash is written as two
  backslashes, a double quote as backslash and double quote, a line feed as backslash
  and \<open>n\<close>, and every other character as itself. \<open>wellEscaped\<close> recognises the texts in
  which backslash, double quote and line feed occur in no other way, and
  \<open>unescapeLabel\<close> reads an escaped value back, as a parser of the format does.
\<close>

fun joinWith :: "string \<Rightarrow> string list \<Rightarrow> string" where
  "joinWith sep [] = []"
| "joinWith sep [x] = x"
| "joinWith sep (x # y # ys) = x @ sep @ joinWith sep (y # ys)"

fun escapedValue :: "string \<Rightarrow> string" where
  "escapedValue [] = []"
| "escapedValue (c # cs) =
     (if c = CHR 0x5C then CHR 0x5C # CHR 0x5C # escapedValue cs
      else if c = CHR 0x22 then CHR 0x5C # CHR 0x22 # escapedValue cs
      else if c = CHR 0x0A then CHR 0x5C # CHR ''n'' # escapedValue cs
      else c # escapedValue cs)"

fun wellEscaped :: "string \<Rightarrow> bool" where
  "wellEscaped [] = True"
| "wellEscaped [c] = (c \<noteq> CHR 0x5C \<and> c \<noteq> CHR 0x22 \<and> c \<noteq> CHR 0x0A)"
| "wellEscaped (c # d # cs) =
     (if c = CHR 0x5C
      then (d = CHR 0x5C \<or> d = CHR 0x22 \<or> d = CHR ''n'') \<and> wellEscaped cs
      else c \<noteq> CHR 0x22 \<and> c \<noteq> CHR 0x0A \<and> wellEscaped (d # cs))"

definition labelPair :: "string \<times> string \<Rightarrow> string" where
  "labelPair p = fst p @ [CHR ''='', CHR 0x22] @ escapedValue (snd p) @ [CHR 0x22]"

definition labelBlock :: "(string \<times> string) list \<Rightarrow> string" where
  "labelBlock dims = ''{'' @ joinWith '','' (map labelPair dims) @ ''}''"

fun unescapeLabel :: "string \<Rightarrow> string" where
  "unescapeLabel [] = []"
| "unescapeLabel [c] = [c]"
| "unescapeLabel (c # d # cs) =
     (if c = CHR 0x5C then (if d = CHR ''n'' then CHR 0x0A else d) # unescapeLabel cs
      else c # unescapeLabel (d # cs))"
section \<open>Snapshot cache (Prometheus handler)\<close>

text \<open>
  The three package-level tables, and the calls of \<open>writeTable\<close> that have been started
  as goroutines and have not run yet, each with its two arguments, in the order in which
  they were started. The working table is only ever indexed; reading a Go map at an
  absent key yields the zero value, here the empty list.
\<close>

record 'v PrometheusTables =
  metricCollectorTable :: "(string \<times> 'v Metric list) list"
  metricOutputTypes :: "(string \<times> bool) list"
  metricOutputTable :: "(string \<times> string) list"
  goroutines :: "(string \<times> 'v Metric list) list"

definition initTables :: "'v PrometheusTables" where
  "initTables =
     \<lparr>metricCollectorTable = [], metricOutputTypes = [], metricOutputTable = [],
      goroutines = []\<rparr>"

definition collected :: "'v PrometheusTables \<Rightarrow> string \<Rightarrow> 'v Metric list" where
  "collected st collectorName =
     (case map_of (metricCollectorTable st) collectorName of None \<Rightarrow> [] | Some ms \<Rightarrow> ms)"

text \<open>
  \<open>writeTable\<close>: \<open>sprintf_f\<close> is the \<open>%f\<close> verb on the value type, \<open>now\<close> the
  millisecond clock reading taken at the start of the call. The text is built without
  any lock held; the only access to shared state is the assignment to the output table.
\<close>

definition sampleLine :: "(nat \<Rightarrow> nat) \<Rightarrow> ('v \<Rightarrow> string) \<Rightarrow> int \<Rightarrow> 'v Metric \<Rightarrow> string" where
  "sampleLine caseTable sprintf_f now m =
     getMetricKey caseTable m @ '' '' @ sprintf_f (Value m) @ '' '' @ sprintf_d now @ [CHR 0x0A]"

definition serializeTable ::
  "(nat \<Rightarrow> nat) \<Rightarrow> ('v \<Rightarrow> string) \<Rightarrow> int \<Rightarrow> 'v Metric list \<Rightarrow> string" where
  "serializeTable caseTable sprintf_f now metrics =
     foldl (\<lambda>out m.
              if \<not> nameMatcher_MatchString (getMetricKey caseTable m) then out
              else out @ sampleLine caseTable sprintf_f now m)
       [] metrics"

definition writeTable ::
  "(nat \<Rightarrow> nat) \<Rightarrow> ('v \<Rightarrow> string) \<Rightarrow> int \<Rightarrow> string \<Rightarrow> 'v Metric list
   \<Rightarrow> 'v PrometheusTables \<Rightarrow> 'v PrometheusTables" where
  "writeTable caseTable sprintf_f now name metrics st =
     st\<lparr>metricOutputTable :=
          AList.update name (serializeTable caseTable sprintf_f now metrics)
            (metricOutputTable st)\<rparr>"

text \<open>
  \<open>addPrometheusMetric\<close>. Its first line reads the \<open>collector\<close> dimension, which
  is the empty string when the metric has none. The end marker takes the working list,
  puts an empty list in its place and starts \<open>writeTable\<close> on the taken list as a
  goroutine: the call is recorded as started, and runs later.
\<close>

definition collectorOf :: "'v Metric \<Rightarrow> string" where
  "collectorOf m = (case GetDimensionValue m ''collector'' of None \<Rightarrow> [] | Some v \<Rightarrow> v)"

definition addPrometheusMetric :: "'v Metric \<Rightarrow> 'v PrometheusTables \<Rightarrow> 'v PrometheusTables" where
  "addPrometheusMetric m st =
     (let collectorName = collectorOf m in
      if BeginCollection m then
        (if map_of (metricCollectorTable st) collectorName = None
         then st\<lparr>metricCollectorTable := AList.update collectorName [] (metricCollectorTable st)\<rparr>
         else st)
      else if EndCollection m then
        (let taken = collected st collectorName in
         st\<lparr>metricCollectorTable := AList.update collectorName [] (metricCollectorTable st),
            goroutines := goroutines st @ [(collectorName, taken)]\<rparr>)
      else
        st\<lparr>metricCollectorTable :=
             AList.update collectorName (collected st collectorName @ [m]) (metricCollectorTable st),
           metricOutputTypes :=
             AList.update (Name m) (if MetricType m = Gauge then False else True)
               (metricOutputTypes st)\<rparr>)"

text \<open>\<open>Prometheus.emitMetrics\<close> feeds a batch to the cache, one metric after the other.\<close>

definition Prometheus_emitMetrics ::
  "'v Metric list \<Rightarrow> 'v PrometheusTables \<Rightarrow> bool \<times> 'v PrometheusTables" where
  "Prometheus_emitMetrics metrics st = (True, foldl (\<lambda>s m. addPrometheusMetric m s) st metrics)"

text \<open>
  The scheduler runs a started goroutine at a time of its choosing: the one at position
  \<open>i\<close> among those that have not run yet, with the clock reading \<open>now\<close>. Nothing orders
  two started calls, also of the same source.
\<close>

definition runGoroutine ::
  "(nat \<Rightarrow> nat) \<Rightarrow> ('v \<Rightarrow> string) \<Rightarrow> nat \<Rightarrow> int \<Rightarrow> 'v PrometheusTables \<Rightarrow> 'v PrometheusTables" where
  "runGoroutine caseTable sprintf_f i now st =
     (if i < length (goroutines st)
      then (case goroutines st ! i of
              (name, metrics) \<Rightarrow>
                writeTable caseTable sprintf_f now name metrics
                  (st\<lparr>goroutines := take i (goroutines st) @ drop (Suc i) (goroutines st)\<rparr>))
      else st)"

text \<open>
  A run of the cache is a sequence of events: a metric arrives (the handler calls
  \<open>addPrometheusMetric\<close>), or the scheduler runs a started goroutine. Each event is
  atomic, as the two mutexes make the accesses to the working and output tables.
\<close>

datatype 'v cache_event = Arrive "'v Metric" | RunWriteTable nat int

fun cacheStep ::
  "(nat \<Rightarrow> nat) \<Rightarrow> ('v \<Rightarrow> string) \<Rightarrow> 'v PrometheusTables \<Rightarrow> 'v cache_event
   \<Rightarrow> 'v PrometheusTables" where
  "cacheStep caseTable sprintf_f st (Arrive m) = addPrometheusMetric m st"
| "cacheStep caseTable sprintf_f st (RunWriteTable i now) = runGoroutine caseTable sprintf_f i now st"

definition cacheRun ::
  "(nat \<Rightarrow> nat) \<Rightarrow> ('v \<Rightarrow> string) \<Rightarrow> 'v PrometheusTables \<Rightarrow> 'v cache_event list
   \<Rightarrow> 'v PrometheusTables" where
  "cacheRun caseTable sprintf_f st evs = foldl (cacheStep caseTable sprintf_f) st evs"

text \<open>
  \<open>PrometheustableRead\<close> returns the bytes handed to the writer and the diagnostics
  logged on the way.
\<close>

definition typeLine :: "(nat \<Rightarrow> nat) \<Rightarrow> string \<Rightarrow> bool \<Rightarrow> string" where
  "typeLine caseTable k t =
     ''# TYPE '' @ lowerFirst caseTable (nameEscaper_Replace k) @ '' ''
       @ (if \<not> t then ''gauge'' else ''counter'') @ [CHR 0x0A]"

definition PrometheustableRead ::
  "(nat \<Rightarrow> nat) \<Rightarrow> 'v PrometheusTables \<Rightarrow> string \<times> string list" where
  "PrometheustableRead caseTable st =
     (case foldl (\<lambda>(out, logged) (k, t).
                    if nameMatcher_MatchString k then (out @ typeLine caseTable k t, logged)
                    else (out, logged @ [''Non prometheus compatible metric name stored: ''
                                          @ [CHR 0x27] @ lowerFirst caseTable (nameEscaper_Replace k)
                                          @ [CHR 0x27]]))
             ([], []) (metricOutputTypes st) of
        (out, logged) \<Rightarrow>
          (foldl (\<lambda>out (name, chunk). out @ chunk) out (metricOutputTable st), logged))"

section \<open>Textfile handler (NodeExporterTextfile)\<close>

text \<open>
  The handler writes through a \<open>bufio.Writer\<close> on the output file. The file is the
  bytes written to it and the number of bytes it still takes: a write beyond that
  stores what fits and fails. The writer is the library's: its sticky error, the bytes
  in its buffer (of the default size) and the file underneath. \<open>Flush\<close>,
  \<open>WriteString\<close> and \<open>WriteByte\<close> follow the library's code; bytes reach the file when
  the buffer is full or flushed, and a failing file is reported by the flush that meets
  it and by every later call. A write method returns the new writer, the number of
  bytes taken and the error, if any.
\<close>

datatype go_panic = NilPointerDereference | TypeAssertionFailed

record File =
  file_data :: string
  file_room :: nat

definition file_Write :: "File \<Rightarrow> string \<Rightarrow> File \<times> nat \<times> string option" where
  "file_Write f p =
     (if length p \<le> file_room f
      then (f\<lparr>file_data := file_data f @ p, file_room := file_room f - length p\<rparr>, length p, None)
      else (f\<lparr>file_data := file_data f @ take (file_room f) p, file_room := 0\<rparr>, file_room f,
            Some ''no space left on device''))"

definition defaultBufSize :: nat where "defaultBufSize = 4096"

record Writer =
  w_err :: "string option"
  w_buf :: string
  w_wr :: File

definition NewWriter :: "File \<Rightarrow> Writer" where
  "NewWriter f = \<lparr>w_err = None, w_buf = [], w_wr = f\<rparr>"

definition Available :: "Writer \<Rightarrow> nat" where
  "Available b = defaultBufSize - length (w_buf b)"

definition Flush :: "Writer \<Rightarrow> Writer \<times> string option" where
  "Flush b =
     (if w_err b \<noteq> None then (b, w_err b)
      else if length (w_buf b) = 0 then (b, None)
      else
        (case file_Write (w_wr b) (w_buf b) of
           (f, n, e) \<Rightarrow>
             (case (if n < length (w_buf b) \<and> e = None then Some ''short write'' else e) of
                Some x \<Rightarrow> (b\<lparr>w_err := Some x, w_buf := drop n (w_buf b), w_wr := f\<rparr>, Some x)
              | None \<Rightarrow> (b\<lparr>w_buf := [], w_wr := f\<rparr>, None))))"

text \<open>
  The loop of \<open>WriteString\<close>: while the text does not fit into the buffer and no error
  is pending, fill the buffer, flush it and go on with the rest of the text.
\<close>

function WriteString_loop :: "Writer \<Rightarrow> string \<Rightarrow> nat \<Rightarrow> Writer \<times> string \<times> nat" where
  "WriteString_loop b s nn =
     (if Available b < length s \<and> w_err b = None
      then WriteString_loop
             (fst (Flush (b\<lparr>w_buf := w_buf b @ take (Available b) s\<rparr>)))
             (drop (Available b) s) (nn + Available b)
      else (b, s, nn))"
  by pat_completeness auto
termination
proof (relation "measure (\<lambda>(b, s, nn).
          if w_err b = None then 2 * length s + (if Available b = 0 then 1 else 0) + 1 else 0)",
       goal_cases)
  case 1
  show ?case by simp
next
  case (2 b s nn)
  define b1 where "b1 = b\<lparr>w_buf := w_buf b @ take (Available b) s\<rparr>"
  define b2 where "b2 = fst (Flush b1)"
  from 2 have lt: "Available b < length s" and ok: "w_err b = None" by simp_all
  have "((b2, drop (Available b) s, nn + Available b), (b, s, nn))
        \<in> measure (\<lambda>(b, s, nn).
            if w_err b = None then 2 * length s + (if Available b = 0 then 1 else 0) + 1 else 0)"
  proof (cases "w_err b2 = None")
    case False
    then obtain y where "w_err b2 = Some y" by auto
    with ok show ?thesis by simp
  next
    case True
    have full: "w_buf b1 \<noteq> []"
    proof
      assume e: "w_buf b1 = []"
      then have "w_buf b = []" by (simp add: b1_def)
      then have "Available b = defaultBufSize" by (simp add: Available_def)
      with e lt show False by (simp add: b1_def defaultBufSize_def)
    qed
    have ok1: "w_err b1 = None" using ok by (simp add: b1_def)
    have empty: "w_buf b2 = []"
      using True ok1 full unfolding b2_def
      by (auto simp: Flush_def split: prod.splits option.splits if_splits)
    then have av: "Available b2 \<noteq> 0" by (simp add: Available_def defaultBufSize_def)
    show ?thesis
    proof (cases "Available b = 0")
      case True
      with ok av \<open>w_err b2 = None\<close> show ?thesis by simp
    next
      case False
      with ok av lt \<open>w_err b2 = None\<close> show ?thesis by simp
    qed
  qed
  then show ?case unfolding b2_def b1_def .
qed

declare WriteString_loop.simps [simp del]

definition WriteString :: "Writer \<Rightarrow> string \<Rightarrow> Writer \<times> nat \<times> string option" where
  "WriteString b s =
     (case WriteString_loop b s 0 of
        (b', rest, nn) \<Rightarrow>
          if w_err b' \<noteq> None then (b', nn, w_err b')
          else (b'\<lparr>w_buf := w_buf b' @ rest\<rparr>, nn + length rest, None))"

definition WriteByte :: "Writer \<Rightarrow> char \<Rightarrow> Writer \<times> string option" where
  "WriteByte b c =
     (if w_err b \<noteq> None then (b, w_err b)
      else if Available b \<le> 0
        then (case Flush b of
                (b', Some x) \<Rightarrow> (b', w_err b')
              | (b', None) \<Rightarrow> (b'\<lparr>w_buf := w_buf b' @ [c]\<rparr>, None))
      else (b\<lparr>w_buf := w_buf b @ [c]\<rparr>, None))"

text \<open>
  The replacer writes the rewritten value piece by piece; on this writer that leaves the
  same bytes, count and error as one write of the rewritten value.
\<close>

definition writeEscapedString :: "Writer \<Rightarrow> string \<Rightarrow> Writer \<times> nat \<times> string option" where
  "writeEscapedString w v = WriteString w (labelEscaper_Replace v)"

text \<open>
  The loop of \<open>writeDimensions\<close>, with the separator and the count of bytes written as
  loop variables; an error ends the loop and the function at once.
\<close>

fun writeDimensions_loop ::
  "Writer \<Rightarrow> (string \<times> string) list \<Rightarrow> char \<Rightarrow> nat \<Rightarrow> Writer \<times> nat \<times> string option" where
  "writeDimensions_loop w [] separator written = (w, written, None)"
| "writeDimensions_loop w ((k, v) # dims) separator written =
     (case WriteByte w separator of
        (w1, Some err) \<Rightarrow> (w1, written + 1, Some err)
      | (w1, None) \<Rightarrow>
     (case WriteString w1 k of
        (w2, n, Some err) \<Rightarrow> (w2, written + 1 + n, Some err)
      | (w2, n, None) \<Rightarrow>
     (case WriteString w2 [CHR ''='', CHR 0x22] of
        (w3, n', Some err) \<Rightarrow> (w3, written + 1 + n + n', Some err)
      | (w3, n', None) \<Rightarrow>
     (case writeEscapedString w3 v of
        (w4, n'', Some err) \<Rightarrow> (w4, written + 1 + n + n' + n'', Some err)
      | (w4, n'', None) \<Rightarrow>
     (case WriteByte w4 (CHR 0x22) of
        (w5, Some err) \<Rightarrow> (w5, written + 1 + n + n' + n'' + 1, Some err)
      | (w5, None) \<Rightarrow>
          writeDimensions_loop w5 dims (CHR '','') (written + 1 + n + n' + n'' + 1))))))"

definition writeDimensions ::
  "Writer \<Rightarrow> (string \<times> string) list \<Rightarrow> Writer \<times> nat \<times> string option" where
  "writeDimensions w dims =
     (if length dims = 0 then (w, 0, None)
      else
        (case writeDimensions_loop w dims (CHR ''{'') 0 of
           (w', written, Some err) \<Rightarrow> (w', written, Some err)
         | (w', written, None) \<Rightarrow>
             (case WriteByte w' (CHR ''}'') of
                (w'', Some err) \<Rightarrow> (w'', written + 1, Some err)
              | (w'', None) \<Rightarrow> (w'', written + 1, None))))"

text \<open>
  \<open>writeFloat\<close> issues a single write of the text of the number; that text is the
  parameter \<open>floatText\<close>. Where the library's \<open>Write\<close> is used for it, it acts as
  \<open>WriteString\<close> does on a text no longer than the buffer.
\<close>

definition writeFloat :: "('v \<Rightarrow> string) \<Rightarrow> Writer \<Rightarrow> 'v \<Rightarrow> Writer \<times> nat \<times> string option" where
  "writeFloat floatText w f = WriteString w (floatText f)"

definition writeMetric ::
  "('v \<Rightarrow> string) \<Rightarrow> Writer \<Rightarrow> 'v Metric \<Rightarrow> Writer \<times> nat \<times> string option" where
  "writeMetric floatText w m =
     (case WriteString w (Name m) of
        (w1, n, Some err) \<Rightarrow> (w1, n, Some err)
      | (w1, n, None) \<Rightarrow>
     (case writeDimensions w1 (Dimensions m) of
        (w2, n', Some err) \<Rightarrow> (w2, n + n', Some err)
      | (w2, n', None) \<Rightarrow>
     (case WriteByte w2 (CHR '' '') of
        (w3, Some err) \<Rightarrow> (w3, n + n' + 1, Some err)
      | (w3, None) \<Rightarrow>
     (case writeFloat floatText w3 (Value m) of
        (w4, n'', Some err) \<Rightarrow> (w4, n + n' + 1 + n'', Some err)
      | (w4, n'', None) \<Rightarrow>
     (case WriteByte w4 (CHR 0x0A) of
        (w5, Some err) \<Rightarrow> (w5, n + n' + 1 + n'' + 1, Some err)
      | (w5, None) \<Rightarrow> (w5, n + n' + 1 + n'' + 1, None))))))"

text \<open>
  The handler: the file name, the writer (\<open>None\<close> is the nil interface value the field
  holds until \<open>Configure\<close> assigns it) and the lines sent to the log. A configuration
  value is a string or something else; \<open>os.Create\<close> is a parameter that yields an error
  text or a file. The call of \<open>configureCommonParams\<close> that ends \<open>Configure\<close> sets
  fields of the embedded base handler only and is left out.
\<close>

datatype config_value = ConfigString string | ConfigOther

record NodeExporterTextfile =
  filename :: string
  fh :: "Writer option"
  logged :: "string list"

definition newNodeExporterTextfile :: NodeExporterTextfile where
  "newNodeExporterTextfile = \<lparr>filename = [], fh = None, logged = []\<rparr>"

definition Configure ::
  "(string \<Rightarrow> string + File) \<Rightarrow> (string \<times> config_value) list \<Rightarrow> NodeExporterTextfile
   \<Rightarrow> go_panic + NodeExporterTextfile" where
  "Configure os_Create configMap h =
     (case (case map_of configMap ''filename'' of
              None \<Rightarrow> Inr h
            | Some (ConfigString name) \<Rightarrow> Inr (h\<lparr>filename := name\<rparr>)
            | Some ConfigOther \<Rightarrow> Inl TypeAssertionFailed) of
        Inl p \<Rightarrow> Inl p
      | Inr h1 \<Rightarrow>
          (case os_Create (filename h1) of
             Inl err \<Rightarrow>
               Inr (h1\<lparr>logged := logged h1 @ [''Failed to open output file. Error: '' @ err]\<rparr>)
           | Inr f \<Rightarrow> Inr (h1\<lparr>fh := Some (NewWriter f)\<rparr>)))"

text \<open>
  \<open>emitMetrics\<close>. Calling a method on the nil writer is a run-time panic; the outcome
  of a call is the handler as the call leaves it, and either that panic or the value
  returned. The error of the final \<open>Flush\<close> is discarded, as in the source.
\<close>

fun emitMetrics_loop ::
  "('v \<Rightarrow> string) \<Rightarrow> Writer \<Rightarrow> string list \<Rightarrow> 'v Metric list \<Rightarrow> Writer \<times> string list" where
  "emitMetrics_loop floatText w lg [] = (w, lg)"
| "emitMetrics_loop floatText w lg (m # ms) =
     (case writeMetric floatText w m of
        (w', n, Some err) \<Rightarrow>
          emitMetrics_loop floatText w'
            (lg @ [''Failed to write to output file. Error: '' @ err]) ms
      | (w', n, None) \<Rightarrow> emitMetrics_loop floatText w' lg ms)"

definition NodeExporterTextfile_emitMetrics ::
  "('v \<Rightarrow> string) \<Rightarrow> 'v Metric list \<Rightarrow> NodeExporterTextfile
   \<Rightarrow> NodeExporterTextfile \<times> (go_panic + bool)" where
  "NodeExporterTextfile_emitMetrics floatText metrics h =
     (let h1 = h\<lparr>logged := logged h
                  @ [''Starting to emit '' @ sprintf_d (int (length metrics)) @ '' metrics'']\<rparr> in
      if length metrics = 0
      then (h1\<lparr>logged := logged h1 @ [''Skipping send because of an empty payload'']\<rparr>, Inr False)
      else
        (let h2 = (if fh h1 = None
                   then h1\<lparr>logged := logged h1
                               @ [''Skipping send because unable to open output file'']\<rparr>
                   else h1)
         in case fh h2 of
              None \<Rightarrow> (h2, Inl NilPointerDereference)
            | Some w \<Rightarrow>
                (case emitMetrics_loop floatText w (logged h2) metrics of
                   (w', lg) \<Rightarrow> (h2\<lparr>fh := Some (fst (Flush w')), logged := lg\<rparr>, Inr True))))"

section \<open>Collectors and handlers\<close>

text \<open>
  What the dispatcher asks of a collector, and of a handler its endpoint table (the key
  of an endpoint and the interval declared for it; the channel of an endpoint is
  identified by the position of the handler and the key). Go's \<open>int\<close> is a 64-bit word;
  points in time are integers, in nanoseconds.
\<close>

record Collector =
  CollectorName :: string
  CanonicalName :: string
  Interval :: "64 word"
  Prefix :: string
  Blacklist :: "string list"
  CollectorType :: string

record Handler =
  CollectorEndpoints :: "(string \<times> int) list"

text \<open>
  \<open>reportCollector\<close>, as the metric it pushes onto the channel of the collector.
\<close>

definition reportCollector :: "Collector \<Rightarrow> int Metric" where
  "reportCollector col =
     AddDimension ''interval'' (sprintf_d (sint (Interval col)))
       ((metric_New ''fullerite.collection_time_exceeded'')\<lparr>MetricType := Counter, Value := 1\<rparr>)"

section \<open>Collector runner (runCollector)\<close>

text \<open>
  One round of the loop of \<open>runCollector\<close>, that is, what one tick of the ticker sets
  off. Time is counted in nanoseconds from the moment the countdown timer is armed.
  The inputs are the time \<open>Collect()\<close> takes to return and the pushes it makes on the
  channel meanwhile, each with its time. \<open>time.AfterFunc\<close> calls its function once, in a
  goroutine of its own, when the duration has elapsed, unless \<open>Stop\<close> is called before;
  a duration that is not positive has elapsed at once. When both fall on the same
  instant either may win, which is the input \<open>stopWinsTie\<close>. The result is the pushes
  of the round with their times; a push is taken to be accepted by the channel when it
  is made.
\<close>

definition staggerValue :: "64 word" where "staggerValue = 1"

definition collectionDeadline :: "Collector \<Rightarrow> int" where
  "collectionDeadline col = sint ((Interval col + staggerValue) * Second)"

definition countdownTimer :: "Collector \<Rightarrow> int \<Rightarrow> bool \<Rightarrow> (int \<times> int Metric) list" where
  "countdownTimer col collectTime stopWinsTie =
     (let fireAt = max 0 (collectionDeadline col) in
      if fireAt < collectTime \<or> (fireAt = collectTime \<and> \<not> stopWinsTie)
      then [(fireAt, reportCollector col)]
      else [])"

definition runCollector_tick ::
  "Collector \<Rightarrow> int \<Rightarrow> bool \<Rightarrow> (int \<times> int Metric) list \<Rightarrow> (int \<times> int Metric) list" where
  "runCollector_tick col collectTime stopWinsTie collectPushes =
     (0, metric_BeginCollection (CollectorName col))
     # (if CollectorType col = ''listener'' then collectPushes
        else foldr (insort_key fst) (countdownTimer col collectTime stopWinsTie) collectPushes)
     @ [(collectTime, metric_EndCollection (CollectorName col))]"

section \<open>Dispatcher (readFromCollector)\<close>

text \<open>
  \<open>stringInSlice\<close>: \<open>regexp.MatchString\<close> is a parameter (pattern first, then the
  text; false also when the pattern does not compile, since the error is discarded).
\<close>

fun stringInSlice :: "(string \<Rightarrow> string \<Rightarrow> bool) \<Rightarrow> string \<Rightarrow> string list \<Rightarrow> bool" where
  "stringInSlice regexp_MatchString metricName [] = False"
| "stringInSlice regexp_MatchString metricName (v # list) =
     (if regexp_MatchString v metricName then True
      else stringInSlice regexp_MatchString metricName list)"

text \<open>
  The state of one run of \<open>readFromCollector\<close>: its two local variables, the metrics
  delivered so far (handler position, endpoint key, metric) and the pairs sent on the
  first statistics channel, both in the order of sending, and whether the statistics
  channels have been closed. A delivery is taken to be accepted by its channel.
\<close>

record 'v Dispatcher =
  emissionCounter :: "(string \<times> 64 word) list"
  lastEmission :: int
  delivered :: "(nat \<times> string \<times> 'v Metric) list"
  statsSent :: "(string \<times> 64 word) list"
  statChansClosed :: bool

definition startDispatcher :: "int \<Rightarrow> 'v Dispatcher" where
  "startDispatcher now =
     \<lparr>emissionCounter = [], lastEmission = now, delivered = [], statsSent = [],
      statChansClosed = False\<rparr>"

definition emissionCount :: "'v Dispatcher \<Rightarrow> string \<Rightarrow> 64 word" where
  "emissionCount st c = (case map_of (emissionCounter st) c of None \<Rightarrow> 0 | Some n \<Rightarrow> n)"

definition statDuration :: "Collector \<Rightarrow> int" where
  "statDuration col = sint (Interval col * 1000000000)"

definition emitCollectorStats :: "(string \<times> 64 word) list \<Rightarrow> 'v Dispatcher \<Rightarrow> 'v Dispatcher" where
  "emitCollectorStats data st = st\<lparr>statsSent := statsSent st @ data\<rparr>"

text \<open>The first part of the loop body: the routing key and the metric as stamped.\<close>

definition resolveSource :: "Collector \<Rightarrow> 'v Metric \<Rightarrow> string \<times> 'v Metric" where
  "resolveSource col m =
     (let m1 = (if GetDimensionValue m ''collector'' = None
                then AddDimension ''collector'' (CollectorName col) m else m)
      in case GetDimensionValue m1 ''collectorCanonicalName'' of
           Some val \<Rightarrow> (val, RemoveDimension ''collectorCanonicalName'' m1)
         | None \<Rightarrow> (CanonicalName col, m1))"

text \<open>
  One round of the loop, for a metric read from the channel together with the two clock
  readings the round may take. \<open>statChans\<close> is the number of statistics channels given.
\<close>

definition fanOut :: "Handler list \<Rightarrow> string \<Rightarrow> 'v Metric \<Rightarrow> (nat \<times> string \<times> 'v Metric) list" where
  "fanOut handlers c m =
     map (\<lambda>(i, h). (i, c, m))
       (filter (\<lambda>(i, h). map_of (CollectorEndpoints h) c \<noteq> None) (List.enumerate 0 handlers))"

definition readFromCollector_step ::
  "(string \<Rightarrow> string \<Rightarrow> bool) \<Rightarrow> Collector \<Rightarrow> Handler list \<Rightarrow> nat
   \<Rightarrow> 'v Dispatcher \<Rightarrow> 'v Metric \<times> int \<times> int \<Rightarrow> 'v Dispatcher" where
  "readFromCollector_step regexp_MatchString col handlers statChans st ev =
     (case ev of (m, currentTime, now) \<Rightarrow>
      (case resolveSource col m of (c, m1) \<Rightarrow>
         if stringInSlice regexp_MatchString (Name m1) (Blacklist col) then st
         else
           (let st1 = st\<lparr>emissionCounter :=
                           AList.update c (emissionCount st c + 1) (emissionCounter st)\<rparr>;
                st2 = (if 0 < statChans
                       then (if lastEmission st1 + statDuration col < currentTime
                             then (emitCollectorStats (emissionCounter st1) st1)\<lparr>lastEmission := now\<rparr>
                             else st1)
                       else st1);
                m2 = (if 0 < length (Prefix col) then m1\<lparr>Name := Prefix col @ Name m1\<rparr> else m1)
            in st2\<lparr>delivered := delivered st2 @ fanOut handlers c m2\<rparr>)))"

definition readFromCollector_loop ::
  "(string \<Rightarrow> string \<Rightarrow> bool) \<Rightarrow> Collector \<Rightarrow> Handler list \<Rightarrow> nat \<Rightarrow> int
   \<Rightarrow> ('v Metric \<times> int \<times> int) list \<Rightarrow> 'v Dispatcher" where
  "readFromCollector_loop regexp_MatchString col handlers statChans start evs =
     foldl (readFromCollector_step regexp_MatchString col handlers statChans)
       (startDispatcher start) evs"

text \<open>
  The whole function, for a channel that delivers the given metrics and is then closed:
  the loop, then the closing of the statistics channels.
\<close>

definition readFromCollector ::
  "(string \<Rightarrow> string \<Rightarrow> bool) \<Rightarrow> Collector \<Rightarrow> Handler list \<Rightarrow> nat \<Rightarrow> int
   \<Rightarrow> ('v Metric \<times> int \<times> int) list \<Rightarrow> 'v Dispatcher" where
  "readFromCollector regexp_MatchString col handlers statChans start evs =
     (readFromCollector_loop regexp_MatchString col handlers statChans start evs)
       \<lparr>statChansClosed := True\<rparr>"

text \<open>
  The metrics of a run that the dispatcher counts for a source are those that resolve
  to it and are not blacklisted; \<open>countedFor\<close> is their number.
\<close>

definition isCounted ::
  "(string \<Rightarrow> string \<Rightarrow> bool) \<Rightarrow> Collector \<Rightarrow> string \<Rightarrow> ('v Metric \<times> int \<times> int) \<Rightarrow> bool" where
  "isCounted regexp_MatchString col c ev =
     (fst (resolveSource col (fst ev)) = c
      \<and> \<not> stringInSlice regexp_MatchString
            (Name (snd (resolveSource col (fst ev)))) (Blacklist col))"

definition countedFor ::
  "(string \<Rightarrow> string \<Rightarrow> bool) \<Rightarrow> Collector \<Rightarrow> string \<Rightarrow> ('v Metric \<times> int \<times> int) list \<Rightarrow> nat" where
  "countedFor regexp_MatchString col c evs =
     length (filter (isCounted regexp_MatchString col c) evs)"

section \<open>Pod information parser (package podinfo)\<close>

text \<open>
  \<open>kubeletTimeout\<close> is a Go \<open>int\<close>, a 64-bit word like a duration. A selector is its \<open>Filter\<close> method. The HTTP client, the body reader and
  the JSON decoder are outside the repository and enter \<open>AllPods\<close> as parameters, each
  returning either an error (\<open>Inl\<close>) or its result.
\<close>

definition podSpecURL :: string where
  "podSpecURL = ''http://localhost:10255/pods''"

record 'pod PodInfoParser =
  kubeletTimeout :: "64 word"
  selectors :: "('pod \<Rightarrow> bool) list"

definition NewPodInfoParser :: "64 word \<Rightarrow> ('pod \<Rightarrow> bool) list \<Rightarrow> 'pod PodInfoParser" where
  "NewPodInfoParser kubeletTimeoutArg sels =
     foldl (\<lambda>p selector. p\<lparr>selectors := selectors p @ [selector]\<rparr>)
       \<lparr>kubeletTimeout = 5, selectors = []\<rparr> sels"

definition clientTimeout :: "'pod PodInfoParser \<Rightarrow> Duration" where
  "clientTimeout p = Second * kubeletTimeout p"

definition AllPods ::
  "(Duration \<Rightarrow> string \<Rightarrow> 'e + 'res) \<Rightarrow> ('res \<Rightarrow> 'e + 'body) \<Rightarrow> ('body \<Rightarrow> 'e + 'pod list) \<Rightarrow>
   'pod PodInfoParser \<Rightarrow> 'e + 'pod list" where
  "AllPods client_Get ReadAll Unmarshal p =
     (case client_Get (clientTimeout p) podSpecURL of
        Inl getErr \<Rightarrow> Inl getErr
      | Inr res \<Rightarrow>
          (case ReadAll res of
             Inl readErr \<Rightarrow> Inl readErr
           | Inr body \<Rightarrow>
               (case Unmarshal body of
                  Inl jsonErr \<Rightarrow> Inl jsonErr
                | Inr items \<Rightarrow> Inr items)))"

section \<open>Auxiliary notions for the statements\<close>

text \<open>
  The text of the pairs of a label block when the first pair is preceded by \<open>sep\<close> and
  every later one by a comma.
\<close>

fun pairsText :: "char \<Rightarrow> (string \<times> string) list \<Rightarrow> string" where
  "pairsText sep [] = []"
| "pairsText sep (p # ps) = sep # labelPair p @ pairsText (CHR '','') ps"

text \<open>
  What a buffered writer has taken so far, in the file or still in its buffer, and the
  writers that take \<open>k\<close> more bytes without an error: no error is pending, the buffer
  is within its size, and the file has room for the buffer and \<open>k\<close> bytes more.
\<close>

definition content :: "Writer \<Rightarrow> string" where
  "content w = file_data (w_wr w) @ w_buf w"

definition goodFor :: "Writer \<Rightarrow> nat \<Rightarrow> bool" where
  "goodFor w k =
     (w_err w = None \<and> length (w_buf w) \<le> defaultBufSize
      \<and> length (w_buf w) + k \<le> file_room (w_wr w))"

text \<open>
  The metrics that have arrived in a run of the cache, in the order of their arrival,
  and the two control markers.
\<close>

fun arrivedOf :: "'v cache_event \<Rightarrow> 'v Metric list" where
  "arrivedOf (Arrive m) = [m]"
| "arrivedOf (RunWriteTable i now) = []"

definition arrived :: "'v cache_event list \<Rightarrow> 'v Metric list" where
  "arrived evs = concat (map arrivedOf evs)"

definition isMarker :: "'v Metric \<Rightarrow> bool" where
  "isMarker m = (BeginCollection m \<or> EndCollection m)"

text \<open>
  A record of source \<open>s\<close> in a run: it has arrived, it is stamped with \<open>s\<close> and it is
  not a marker. The tables hold records only: the working lists and the lists taken by
  the started goroutines hold records of their source, the type table has names of
  records, and every published body is the serialization of records of its source.
\<close>

definition recordOf :: "'v cache_event list \<Rightarrow> string \<Rightarrow> 'v Metric \<Rightarrow> bool" where
  "recordOf evs s m = (m \<in> set (arrived evs) \<and> collectorOf m = s \<and> \<not> isMarker m)"

definition recordsOnly ::
  "(nat \<Rightarrow> nat) \<Rightarrow> ('v \<Rightarrow> string) \<Rightarrow> 'v cache_event list \<Rightarrow> 'v PrometheusTables \<Rightarrow> bool" where
  "recordsOnly ct f evs st =
     ((\<forall>s. \<forall>m\<in>set (collected st s). recordOf evs s m)
      \<and> (\<forall>g\<in>set (goroutines st). \<forall>m\<in>set (snd g). recordOf evs (fst g) m)
      \<and> (\<forall>kt\<in>set (metricOutputTypes st).
            \<exists>m\<in>set (arrived evs). Name m = fst kt \<and> \<not> isMarker m)
      \<and> (\<forall>sc\<in>set (metricOutputTable st).
            \<exists>now ms. snd sc = serializeTable ct f now ms
               \<and> (\<forall>m\<in>set ms. recordOf evs (fst sc) m)))"

text \<open>
  The type lines of a payload, and the sample lines of a list of records at a clock
  reading.
\<close>

definition typeLines :: "(nat \<Rightarrow> nat) \<Rightarrow> (string \<times> bool) list \<Rightarrow> string" where
  "typeLines caseTable types =
     concat (map (\<lambda>(k, t). typeLine caseTable k t)
               (filter (\<lambda>(k, t). nameMatcher_MatchString k) types))"

definition sampleLines ::
  "(nat \<Rightarrow> nat) \<Rightarrow> ('v \<Rightarrow> string) \<Rightarrow> int \<times> 'v Metric list \<Rightarrow> string" where
  "sampleLines caseTable sprintf_f body =
     concat (map (sampleLine caseTable sprintf_f (fst body))
               (filter (\<lambda>m. nameMatcher_MatchString (getMetricKey caseTable m)) (snd body)))"

text \<open>
  A round of the dispatcher sends the statistics when the metric is not blacklisted, a
  statistics channel was given and the first clock reading of the round is later than
  the last emission by more than the interval.
\<close>

definition statsDue ::
  "(string \<Rightarrow> string \<Rightarrow> bool) \<Rightarrow> Collector \<Rightarrow> nat \<Rightarrow> 'v Dispatcher
   \<Rightarrow> 'v Metric \<times> int \<times> int \<Rightarrow> bool" where
  "statsDue regexp_MatchString col statChans st ev =
     (\<not> stringInSlice regexp_MatchString (Name (snd (resolveSource col (fst ev)))) (Blacklist col)
      \<and> 0 < statChans
      \<and> lastEmission st + statDuration col < fst (snd ev))"

text \<open>
  Runes that have an encoding of their own, the characters the name replacer rewrites,
  and what the idempotence of sanitization asks of the Unicode case tables: lower-casing
  a lower-cased rune changes nothing, the replacement character has no case, and no rune
  outside ASCII is lower-cased to a character that the replacer rewrites.
\<close>

definition validRune :: "nat \<Rightarrow> bool" where
  "validRune r = (r \<le> 0x10FFFF \<and> \<not> (0xD800 \<le> r \<and> r \<le> 0xDFFF))"

definition rewritten :: "char \<Rightarrow> bool" where
  "rewritten c = (c = CHR ''$'' \<or> c = CHR ''.'' \<or> c = CHR ''-'' \<or> c = CHR ''/''
                  \<or> c = CHR 0x27 \<or> c = CHR '' '')"

definition caseTableOK :: "(nat \<Rightarrow> nat) \<Rightarrow> bool" where
  "caseTableOK caseTable =
     ((\<forall>r. 0x7F < r \<longrightarrow> unicode_ToLower caseTable (caseTable r) = caseTable r)
      \<and> caseTable RuneError = RuneError
      \<and> (\<forall>r. 0x7F < r \<longrightarrow> caseTable r \<le> 0x7F \<longrightarrow> \<not> rewritten (char_of (caseTable r))))"

text \<open>
  A fragment of the Unicode case tables: the capital letters of the Latin-1 supplement
  and the Kelvin sign, whose lower case is the ASCII letter k.
\<close>

definition latin1CaseTable :: "nat \<Rightarrow> nat" where
  "latin1CaseTable r =
     (if (0xC0 \<le> r \<and> r \<le> 0xD6) \<or> (0xD8 \<le> r \<and> r \<le> 0xDE) then r + 0x20
      else if r = 0x212A then 0x6B
      else r)"

section \<open>Properties of the pod information parser\<close>

lemma NewPodInfoParser_fold:
  "foldl (\<lambda>p selector. p\<lparr>selectors := selectors p @ [selector]\<rparr>) q sels
     = q\<lparr>selectors := selectors q @ sels\<rparr>"
  by (induction sels arbitrary: q) simp_all

lemma NewPodInfoParser_eq:
  "NewPodInfoParser t sels = \<lparr>kubeletTimeout = 5, selectors = sels\<rparr>"
  by (simp add: NewPodInfoParser_def NewPodInfoParser_fold)

text \<open>
  Claim C10. Whatever timeout and selectors the caller passes, the parser built by
  \<open>NewPodInfoParser\<close> holds the timeout 5 (and exactly the given selectors), so
  \<open>AllPods\<close> hands the HTTP client a timeout of five seconds and its result is what the
  request issued with that timeout yields.
\<close>

theorem NewPodInfoParser_timeout_is_five:
  "kubeletTimeout (NewPodInfoParser t sels) = 5
   \<and> selectors (NewPodInfoParser t sels) = sels
   \<and> clientTimeout (NewPodInfoParser t sels) = 5000000000
   \<and> AllPods client_Get ReadAll Unmarshal (NewPodInfoParser t sels)
       = (case client_Get 5000000000 podSpecURL of
            Inl getErr \<Rightarrow> Inl getErr
          | Inr res \<Rightarrow>
              (case ReadAll res of
                 Inl readErr \<Rightarrow> Inl readErr
               | Inr body \<Rightarrow>
                   (case Unmarshal body of
                      Inl jsonErr \<Rightarrow> Inl jsonErr
                    | Inr items \<Rightarrow> Inr items)))"
  by (simp add: NewPodInfoParser_eq AllPods_def clientTimeout_def Second_def)

section \<open>Evaluation of characters\<close>

lemma char_of_nat_eval:
  "char_of (n::nat) = Char (odd n) (odd (n div 2)) (odd (n div 4)) (odd (n div 8))
      (odd (n div 16)) (odd (n div 32)) (odd (n div 64)) (odd (n div 128))"
  by (simp add: char_of_def bit_iff_odd)

section \<open>Label blocks\<close>

lemma pairsText_join:
  "pairsText sep (p # ps) = sep # joinWith '','' (map labelPair (p # ps))"
  by (induction ps arbitrary: sep p) simp_all

lemma labelEscaper_escapedValue: "labelEscaper_Replace v = escapedValue v"
  by (induction v) (simp_all add: labelEscaper_Replace_def labelEscaper_byte_def)

lemma dimensionsToString_fold:
  "foldl (\<lambda>(output, seperator) (k, v).
            (output @ seperator @ k @ [CHR ''='', CHR 0x22]
               @ labelEscaper_Replace v @ [CHR 0x22], '','')) (out, [sep]) dims
   = (out @ pairsText sep dims, if dims = [] then [sep] else '','')"
  by (induction dims arbitrary: out sep) (auto simp: labelPair_def labelEscaper_escapedValue)

lemma dimensionsToString_labelBlock: "dimensionsToString dims = labelBlock dims"
proof (cases dims)
  case Nil
  then show ?thesis by (simp add: dimensionsToString_def labelBlock_def)
next
  case (Cons p ps)
  then show ?thesis
    using dimensionsToString_fold [of "[]" "CHR ''{''" dims]
    by (simp add: dimensionsToString_def labelBlock_def pairsText_join
          del: pairsText.simps joinWith.simps)
qed

lemma unescape_plain: "c \<noteq> CHR 0x5C \<Longrightarrow> unescapeLabel (c # rest) = c # unescapeLabel rest"
  by (cases rest) simp_all

lemma unescape_pair:
  "unescapeLabel (CHR 0x5C # d # rest) = (if d = CHR ''n'' then CHR 0x0A else d) # unescapeLabel rest"
  by simp

lemma unescape_escape: "unescapeLabel (escapedValue v) = v"
  by (induction v) (simp_all add: unescape_plain unescape_pair del: unescapeLabel.simps(3))

lemma wellEscaped_plain:
  "c \<noteq> CHR 0x5C \<Longrightarrow>
   wellEscaped (c # rest) = (c \<noteq> CHR 0x22 \<and> c \<noteq> CHR 0x0A \<and> wellEscaped rest)"
  by (cases rest) simp_all

lemma wellEscaped_pair:
  "wellEscaped (CHR 0x5C # d # rest)
     = ((d = CHR 0x5C \<or> d = CHR 0x22 \<or> d = CHR ''n'') \<and> wellEscaped rest)"
  by simp

lemma wellEscaped_escapedValue: "wellEscaped (escapedValue v)"
  by (induction v) (simp_all add: wellEscaped_plain wellEscaped_pair del: wellEscaped.simps(3))

lemma escape_no_newline: "CHR 0x0A \<notin> set (escapedValue v)"
  by (induction v) simp_all

text \<open>The buffered writer, when the file takes what it is given.\<close>

lemma Flush_good:
  assumes "goodFor w k"
  shows "\<exists>w'. Flush w = (w', None) \<and> content w' = content w \<and> goodFor w' k \<and> w_buf w' = []"
  using assms
  by (auto simp: goodFor_def Flush_def file_Write_def content_def)

lemma WriteString_loop_good:
  "goodFor b (length s + k) \<Longrightarrow>
   \<exists>b' s'. WriteString_loop b s nn = (b', s', nn + (length s - length s'))
      \<and> content b' @ s' = content b @ s \<and> goodFor b' (length s' + k)
      \<and> length s' \<le> Available b' \<and> length s' \<le> length s"
proof (induction b s nn rule: WriteString_loop.induct)
  case (1 b s nn)
  show ?case
  proof (cases "Available b < length s \<and> w_err b = None")
    case False
    with "1.prems" have "length s \<le> Available b" by (simp add: goodFor_def)
    with False "1.prems" show ?thesis
      by (subst WriteString_loop.simps) simp
  next
    case True
    define b1 where "b1 = b\<lparr>w_buf := w_buf b @ take (Available b) s\<rparr>"
    define s1 where "s1 = drop (Available b) s"
    from True have lt: "Available b < length s" by simp
    have len: "length s1 + Available b = length s"
      using lt by (simp add: s1_def)
    have g1: "goodFor b1 (length s1 + k)"
      using "1.prems" lt
      by (simp add: goodFor_def b1_def s1_def Available_def)
    from Flush_good [OF g1] obtain b2 where
      f: "Flush b1 = (b2, None)" and c2: "content b2 = content b1" and
      g2: "goodFor b2 (length s1 + k)"
      by blast
    have b2: "fst (Flush b1) = b2" by (simp add: f)
    from "1.IH" [OF True, folded b1_def s1_def, unfolded b2, OF g2]
    obtain b' s' where
      r: "WriteString_loop b2 s1 (nn + Available b)
            = (b', s', nn + Available b + (length s1 - length s'))" and
      c: "content b' @ s' = content b2 @ s1" and g: "goodFor b' (length s' + k)" and
      a: "length s' \<le> Available b'" and l: "length s' \<le> length s1"
      by blast
    have step: "WriteString_loop b s nn = WriteString_loop b2 s1 (nn + Available b)"
      using True by (subst WriteString_loop.simps) (simp add: b1_def [symmetric] s1_def [symmetric] b2)
    have c1: "content b1 @ s1 = content b @ s"
      by (simp add: content_def b1_def s1_def)
    have "nn + Available b + (length s1 - length s') = nn + (length s - length s')"
      using len l by simp
    with step r c c2 c1 g a l len show ?thesis by simp
  qed
qed

lemma WriteString_good:
  assumes "goodFor w (length s + k)"
  shows "\<exists>w'. WriteString w s = (w', length s, None) \<and> content w' = content w @ s
           \<and> goodFor w' k"
proof -
  from WriteString_loop_good [OF assms, of 0] obtain b' s' where
    r: "WriteString_loop w s 0 = (b', s', 0 + (length s - length s'))" and
    c: "content b' @ s' = content w @ s" and g: "goodFor b' (length s' + k)" and
    a: "length s' \<le> Available b'" and l: "length s' \<le> length s"
    by blast
  from g have e: "w_err b' = None" by (simp add: goodFor_def)
  have "goodFor (b'\<lparr>w_buf := w_buf b' @ s'\<rparr>) k"
    using g a by (auto simp: goodFor_def Available_def)
  moreover have "content (b'\<lparr>w_buf := w_buf b' @ s'\<rparr>) = content w @ s"
    using c by (simp add: content_def)
  ultimately show ?thesis
    using r e l by (simp add: WriteString_def)
qed

lemma WriteByte_good:
  assumes "goodFor w (1 + k)"
  shows "\<exists>w'. WriteByte w c = (w', None) \<and> content w' = content w @ [c] \<and> goodFor w' k"
proof (cases "Available w \<le> 0")
  case False
  with assms show ?thesis
    by (simp add: WriteByte_def goodFor_def content_def Available_def)
next
  case True
  from Flush_good [OF assms] obtain w1 where
    f: "Flush w = (w1, None)" and c: "content w1 = content w" and g: "goodFor w1 (1 + k)"
    and e: "w_buf w1 = []"
    by blast
  from assms have "w_err w = None" by (simp add: goodFor_def)
  with True f c g e show ?thesis
    by (simp add: WriteByte_def goodFor_def content_def defaultBufSize_def)
qed

lemma writeDimensions_loop_good:
  "goodFor w (length (pairsText sep dims) + k) \<Longrightarrow>
   \<exists>w'. writeDimensions_loop w dims sep written
           = (w', written + length (pairsText sep dims), None)
      \<and> content w' = content w @ pairsText sep dims \<and> goodFor w' k"
proof (induction dims arbitrary: w sep written)
  case Nil
  then show ?case by simp
next
  case (Cons p ps)
  obtain key v where p: "p = (key, v)" by (cases p)
  let ?e = "labelEscaper_Replace v"
  let ?rest = "length (pairsText (CHR '','') ps) + k"
  from Cons.prems have g0:
    "goodFor w (1 + (length key + (2 + (length ?e + (1 + ?rest)))))"
    by (simp add: p labelPair_def labelEscaper_escapedValue add.assoc)
  from WriteByte_good [OF g0, of sep] obtain w1 where
    s1: "WriteByte w sep = (w1, None)" and c1: "content w1 = content w @ [sep]" and
    g1: "goodFor w1 (length key + (2 + (length ?e + (1 + ?rest))))"
    by blast
  from WriteString_good [OF g1] obtain w2 where
    s2: "WriteString w1 key = (w2, length key, None)" and c2: "content w2 = content w1 @ key" and
    g2: "goodFor w2 (2 + (length ?e + (1 + ?rest)))"
    by blast
  have g2': "goodFor w2 (length [CHR ''='', CHR 0x22] + (length ?e + (1 + ?rest)))"
    using g2 by simp
  from WriteString_good [OF g2'] obtain w3 where
    s3: "WriteString w2 [CHR ''='', CHR 0x22] = (w3, length [CHR ''='', CHR 0x22], None)" and
    c3: "content w3 = content w2 @ [CHR ''='', CHR 0x22]" and
    g3: "goodFor w3 (length ?e + (1 + ?rest))"
    by blast
  from WriteString_good [OF g3] obtain w4 where
    s4: "writeEscapedString w3 v = (w4, length ?e, None)" and
    c4: "content w4 = content w3 @ ?e" and g4: "goodFor w4 (1 + ?rest)"
    unfolding writeEscapedString_def by blast
  from WriteByte_good [OF g4, of "CHR 0x22"] obtain w5 where
    s5: "WriteByte w4 (CHR 0x22) = (w5, None)" and c5: "content w5 = content w4 @ [CHR 0x22]" and
    g5: "goodFor w5 ?rest"
    by blast
  from Cons.IH [OF g5] obtain w' where
    r: "writeDimensions_loop w5 ps (CHR '','')
           (written + 1 + length key + length [CHR ''='', CHR 0x22] + length ?e + 1)
         = (w', (written + 1 + length key + length [CHR ''='', CHR 0x22] + length ?e + 1)
                 + length (pairsText (CHR '','') ps), None)" and
    c: "content w' = content w5 @ pairsText (CHR '','') ps" and g: "goodFor w' k"
    by blast
  have "writeDimensions_loop w (p # ps) sep written
          = (w', (written + 1 + length key + length [CHR ''='', CHR 0x22] + length ?e + 1)
                 + length (pairsText (CHR '','') ps), None)"
    by (simp only: p writeDimensions_loop.simps s1 s2 s3 s4 s5 r prod.case option.case)
  moreover have "content w' = content w @ pairsText sep (p # ps)"
    by (simp add: c c5 c4 c3 c2 c1 p labelPair_def labelEscaper_escapedValue)
  ultimately show ?case
    using g by (simp add: p labelPair_def labelEscaper_escapedValue)
qed

lemma writeDimensions_good:
  assumes "dims \<noteq> []" "goodFor w (length (labelBlock dims) + k)"
  shows "\<exists>w'. writeDimensions w dims = (w', length (labelBlock dims), None)
           \<and> content w' = content w @ labelBlock dims \<and> goodFor w' k"
proof -
  obtain p ps where d: "dims = p # ps" using assms(1) by (cases dims) auto
  have lb: "labelBlock dims = pairsText (CHR ''{'') dims @ ''}''"
    by (simp add: d labelBlock_def pairsText_join del: pairsText.simps joinWith.simps)
  have g0: "goodFor w (length (pairsText (CHR ''{'') dims) + (1 + k))"
    using assms(2) by (simp add: lb)
  from writeDimensions_loop_good [OF g0, of 0] obtain w1 where
    l: "writeDimensions_loop w dims (CHR ''{'') 0
          = (w1, 0 + length (pairsText (CHR ''{'') dims), None)" and
    c1: "content w1 = content w @ pairsText (CHR ''{'') dims" and g1: "goodFor w1 (1 + k)"
    by blast
  from WriteByte_good [OF g1, of "CHR ''}''"] obtain w2 where
    s: "WriteByte w1 (CHR ''}'') = (w2, None)" and c2: "content w2 = content w1 @ ''}''" and
    g2: "goodFor w2 k"
    by blast
  show ?thesis
    using assms(1) g2 by (simp add: writeDimensions_def l s lb c1 c2)
qed

text \<open>
  Claim C8, as the code has it. The exposition serializer renders the empty dimension
  set as \<open>{}\<close> and any set as the label block of the format. The line writer of the
  textfile handler writes nothing for the empty set; when the set is not empty and the
  writer and its file take the text, it writes exactly the same label block, which is
  in the file after the flush that ends the batch. The escaper of both writes a
  backslash as two backslashes, a double quote as backslash and double quote, a line
  feed as backslash and \<open>n\<close> and any other character as itself; so in an escaped value
  backslash, double quote and line feed occur in no other way, and the value reads back
  to the original.
\<close>

theorem label_block_rendering:
  "dimensionsToString [] = ''{}''
   \<and> dimensionsToString dims = labelBlock dims
   \<and> writeDimensions w [] = (w, 0, None)
   \<and> (dims \<noteq> [] \<and> goodFor w (length (labelBlock dims)) \<longrightarrow>
        (\<exists>w'. writeDimensions w dims = (w', length (labelBlock dims), None)
           \<and> content w' = content w @ labelBlock dims
           \<and> Flush w' = (fst (Flush w'), None)
           \<and> file_data (w_wr (fst (Flush w'))) = content w @ labelBlock dims
           \<and> w_buf (fst (Flush w')) = []))
   \<and> labelEscaper_Replace v = escapedValue v
   \<and> labelEscaper_Replace [CHR 0x5C] = [CHR 0x5C, CHR 0x5C]
   \<and> labelEscaper_Replace [CHR 0x22] = [CHR 0x5C, CHR 0x22]
   \<and> labelEscaper_Replace [CHR 0x0A] = [CHR 0x5C, CHR ''n'']
   \<and> wellEscaped (labelEscaper_Replace v)
   \<and> unescapeLabel (labelEscaper_Replace v) = v
   \<and> CHR 0x0A \<notin> set (labelEscaper_Replace v)"
proof -
  have a: "dimensionsToString [] = ''{}''"
    by (simp add: dimensionsToString_def)
  have b: "writeDimensions w [] = (w, 0, None)"
    by (simp add: writeDimensions_def)
  have c: "\<exists>w'. writeDimensions w dims = (w', length (labelBlock dims), None)
           \<and> content w' = content w @ labelBlock dims
           \<and> Flush w' = (fst (Flush w'), None)
           \<and> file_data (w_wr (fst (Flush w'))) = content w @ labelBlock dims
           \<and> w_buf (fst (Flush w')) = []"
    if ne: "dims \<noteq> []" and g: "goodFor w (length (labelBlock dims))"
  proof -
    from g have "goodFor w (length (labelBlock dims) + 0)" by simp
    from writeDimensions_good [OF ne this] obtain w' where
      r: "writeDimensions w dims = (w', length (labelBlock dims), None)" and
      c: "content w' = content w @ labelBlock dims" and g': "goodFor w' 0"
      by blast
    from Flush_good [OF g'] obtain w2 where
      f: "Flush w' = (w2, None)" and c2: "content w2 = content w'" and e: "w_buf w2 = []"
      by blast
    from c2 e have "file_data (w_wr w2) = content w'" by (simp add: content_def)
    with r c f e show ?thesis by simp
  qed
  have d: "labelEscaper_Replace [CHR 0x5C] = [CHR 0x5C, CHR 0x5C]"
    "labelEscaper_Replace [CHR 0x22] = [CHR 0x5C, CHR 0x22]"
    "labelEscaper_Replace [CHR 0x0A] = [CHR 0x5C, CHR ''n'']"
    by (simp_all add: labelEscaper_escapedValue)
  have e: "dims \<noteq> [] \<and> goodFor w (length (labelBlock dims)) \<longrightarrow>
        (\<exists>w'. writeDimensions w dims = (w', length (labelBlock dims), None)
           \<and> content w' = content w @ labelBlock dims
           \<and> Flush w' = (fst (Flush w'), None)
           \<and> file_data (w_wr (fst (Flush w'))) = content w @ labelBlock dims
           \<and> w_buf (fst (Flush w')) = [])"
    using c by blast
  have f: "wellEscaped (labelEscaper_Replace v)"
    "unescapeLabel (labelEscaper_Replace v) = v"
    "CHR 0x0A \<notin> set (labelEscaper_Replace v)"
    by (simp_all add: labelEscaper_escapedValue wellEscaped_escapedValue unescape_escape
          escape_no_newline)
  show ?thesis
    by (intro conjI)
       (fact a, fact dimensionsToString_labelBlock, fact b, fact e,
        fact labelEscaper_escapedValue, fact d(1), fact d(2), fact d(3),
        fact f(1), fact f(2), fact f(3))
qed

theorem label_block_rendering_witness:
  "goodFor (NewWriter \<lparr>file_data = ''m'', file_room = 64\<rparr>)
     (length (labelBlock [(''a'', ''1''), (''b'', [CHR ''x'', CHR 0x22, CHR ''y''])]))
   \<and> dimensionsToString [(''a'', ''1''), (''b'', [CHR ''x'', CHR 0x22, CHR ''y''])]
     = [CHR ''{'', CHR ''a'', CHR ''='', CHR 0x22, CHR ''1'', CHR 0x22, CHR '','',
        CHR ''b'', CHR ''='', CHR 0x22, CHR ''x'', CHR 0x5C, CHR 0x22, CHR ''y'', CHR 0x22,
        CHR ''}'']
   \<and> file_data (w_wr (fst (Flush (fst (writeDimensions
         (NewWriter \<lparr>file_data = ''m'', file_room = 64\<rparr>)
         [(''a'', ''1''), (''b'', [CHR ''x'', CHR 0x22, CHR ''y''])])))))
     = [CHR ''m'', CHR ''{'', CHR ''a'', CHR ''='', CHR 0x22, CHR ''1'', CHR 0x22, CHR '','',
        CHR ''b'', CHR ''='', CHR 0x22, CHR ''x'', CHR 0x5C, CHR 0x22, CHR ''y'', CHR 0x22,
        CHR ''}'']
   \<and> labelEscaper_Replace [CHR ''x'', CHR 0x22, CHR ''y''] = [CHR ''x'', CHR 0x5C, CHR 0x22, CHR ''y'']
   \<and> \<not> wellEscaped [CHR ''x'', CHR 0x22, CHR ''y'']"
  using label_block_rendering
    [of "[(''a'', ''1''), (''b'', [CHR ''x'', CHR 0x22, CHR ''y''])]"
        "NewWriter \<lparr>file_data = ''m'', file_room = 64\<rparr>" "[CHR ''x'', CHR 0x22, CHR ''y'']"]
  by (auto simp: labelBlock_def labelPair_def goodFor_def NewWriter_def content_def
        defaultBufSize_def)

text \<open>
  The claim as stated fails for the textfile handler: for the empty dimension set its
  line writer leaves the output untouched, it does not write \<open>{}\<close>, neither into
  the buffer nor, after the flush, into the file.
\<close>

theorem writeDimensions_empty_counterexample:
  "content (fst (writeDimensions (NewWriter \<lparr>file_data = [], file_room = 64\<rparr>) [])) = []
   \<and> file_data (w_wr (fst (Flush (fst (writeDimensions
          (NewWriter \<lparr>file_data = [], file_room = 64\<rparr>) []))))) = []
   \<and> file_data (w_wr (fst (Flush (fst (writeDimensions
          (NewWriter \<lparr>file_data = [], file_room = 64\<rparr>) []))))) \<noteq> ''{}''"
  by (simp add: writeDimensions_def NewWriter_def content_def Flush_def)

section \<open>Textfile handler without an output file\<close>

text \<open>
  Claim C3 asks that, once opening the output file has failed, a flush of a non-empty
  batch discards the metrics and the handler carries on. The code does leave the writer
  unset after the failed \<open>os.Create\<close> and does log the warning, but it then goes on to
  write through the nil writer: the flush ends in a nil-pointer panic.
\<close>

theorem emitMetrics_after_failed_open_panics:
  "Configure (\<lambda>name. Inl err) [(''filename'', ConfigString f)] newNodeExporterTextfile
     = Inr \<lparr>filename = f, fh = None,
            logged = [''Failed to open output file. Error: '' @ err]\<rparr>
   \<and> NodeExporterTextfile_emitMetrics floatText (m # ms)
       \<lparr>filename = f, fh = None, logged = lg\<rparr>
     = (\<lparr>filename = f, fh = None,
         logged = lg @ [''Starting to emit '' @ sprintf_d (int (length (m # ms))) @ '' metrics'',
                        ''Skipping send because unable to open output file'']\<rparr>,
        Inl NilPointerDereference)"
  by (simp add: Configure_def newNodeExporterTextfile_def NodeExporterTextfile_emitMetrics_def)

section \<open>Snapshot cache: generations\<close>

lemma end_not_begin: "EndCollection m \<Longrightarrow> \<not> BeginCollection m"
  by (simp add: EndCollection_def BeginCollection_def)

lemma collected_update:
  "collected (st\<lparr>metricCollectorTable := AList.update k v (metricCollectorTable st)\<rparr>) s
     = (if s = k then v else collected st s)"
  by (simp add: collected_def update_conv')

lemma addPrometheusMetric_end:
  "EndCollection e \<Longrightarrow>
   addPrometheusMetric e st
     = st\<lparr>metricCollectorTable := AList.update (collectorOf e) [] (metricCollectorTable st),
          goroutines := goroutines st @ [(collectorOf e, collected st (collectorOf e))]\<rparr>"
  by (simp add: addPrometheusMetric_def end_not_begin Let_def)

lemma addPrometheusMetric_begin_collected:
  "BeginCollection b \<Longrightarrow> collected (addPrometheusMetric b st) s = collected st s"
  by (auto simp: addPrometheusMetric_def Let_def collected_def update_conv')

lemma addPrometheusMetric_begin_others:
  "BeginCollection b \<Longrightarrow>
   metricOutputTable (addPrometheusMetric b st) = metricOutputTable st
   \<and> metricOutputTypes (addPrometheusMetric b st) = metricOutputTypes st
   \<and> goroutines (addPrometheusMetric b st) = goroutines st"
  by (simp add: addPrometheusMetric_def Let_def)

lemma addPrometheusMetric_record:
  "\<not> BeginCollection m \<Longrightarrow> \<not> EndCollection m \<Longrightarrow>
   addPrometheusMetric m st
     = st\<lparr>metricCollectorTable :=
             AList.update (collectorOf m) (collected st (collectorOf m) @ [m])
               (metricCollectorTable st),
          metricOutputTypes :=
             AList.update (Name m) (MetricType m \<noteq> Gauge) (metricOutputTypes st)\<rparr>"
  by (simp add: addPrometheusMetric_def Let_def)


lemma runGoroutine_eq:
  "i < length (goroutines st) \<Longrightarrow>
   runGoroutine ct f i now st
     = st\<lparr>goroutines := take i (goroutines st) @ drop (Suc i) (goroutines st),
          metricOutputTable :=
            AList.update (fst (goroutines st ! i))
              (serializeTable ct f now (snd (goroutines st ! i))) (metricOutputTable st)\<rparr>"
  by (simp add: runGoroutine_def writeTable_def split: prod.splits)

lemma runGoroutine_collected: "collected (runGoroutine ct f i now st) s = collected st s"
  by (simp add: runGoroutine_def writeTable_def collected_def split: prod.splits)

lemma cacheRun_snoc:
  "cacheRun ct f st (evs @ [ev]) = cacheStep ct f (cacheRun ct f st evs) ev"
  by (simp add: cacheRun_def)

lemma Prometheus_emitMetrics_run:
  "snd (Prometheus_emitMetrics metrics st) = cacheRun ct f st (map Arrive metrics)"
  by (simp add: Prometheus_emitMetrics_def cacheRun_def foldl_map)

lemma arrived_snoc: "arrived (evs @ [ev]) = arrived evs @ arrivedOf ev"
  by (simp add: arrived_def)




section \<open>Evaluation of concrete runs\<close>

lemmas metric_eval = metric_EndCollection_def metric_BeginCollection_def metric_WithValue_def
  metric_New_def AddDimension_def RemoveDimension_def GetDimensionValue_def collectorOf_def
  EndCollection_def BeginCollection_def Gauge_def Counter_def

lemmas string_eval = DecodeRuneInString.simps firstSize_def acceptLo_def acceptHi_def
  sprintf_d_def sprintf_f_integral_def digits10.simps char_of_nat_eval
  lowerFirst_def unicode_ToLower_def string_of_rune_def nameEscaper_Replace_def
  nameEscaper_byte_def labelEscaper_Replace_def labelEscaper_byte_def nameFirstClass_def
  nameRestClass_def dimensionsToString_def sanitize_def

lemmas cache_eval = cacheRun_def runGoroutine_def Prometheus_emitMetrics_def
  addPrometheusMetric_def writeTable_def serializeTable_def sampleLine_def getMetricKey_def
  PrometheustableRead_def typeLine_def collected_def initTables_def Let_def

section \<open>Snapshot cache: records that arrive before the begin marker\<close>


section \<open>Snapshot cache: control markers\<close>

lemma set_update_subset: "set (AList.update k v al) \<subseteq> insert (k, v) (set al)"
  by (induction al) auto

lemma recordOf_mono: "recordOf evs s m \<Longrightarrow> recordOf (evs @ [ev]) s m"
  by (simp add: recordOf_def arrived_snoc)

lemma arrived_mono: "m \<in> set (arrived evs) \<Longrightarrow> m \<in> set (arrived (evs @ [ev]))"
  by (simp add: arrived_snoc)

lemma recordsOnly_init: "recordsOnly ct f [] initTables"
  by (simp add: recordsOnly_def initTables_def collected_def)

lemma recordsOnly_mono:
  assumes "recordsOnly ct f evs st"
  shows "recordsOnly ct f (evs @ [ev]) st"
  unfolding recordsOnly_def
proof (intro conjI allI ballI)
  fix s m assume "m \<in> set (collected st s)"
  with assms show "recordOf (evs @ [ev]) s m"
    by (simp add: recordsOnly_def recordOf_mono)
next
  fix g m assume "g \<in> set (goroutines st)" "m \<in> set (snd g)"
  with assms show "recordOf (evs @ [ev]) (fst g) m"
    by (simp add: recordsOnly_def recordOf_mono)
next
  fix kt assume "kt \<in> set (metricOutputTypes st)"
  with assms obtain m where "m \<in> set (arrived evs)" "Name m = fst kt" "\<not> isMarker m"
    unfolding recordsOnly_def by blast
  then show "\<exists>m\<in>set (arrived (evs @ [ev])). Name m = fst kt \<and> \<not> isMarker m"
    using arrived_mono by blast
next
  fix sc assume "sc \<in> set (metricOutputTable st)"
  with assms obtain now ms where "snd sc = serializeTable ct f now ms"
    "\<forall>m\<in>set ms. recordOf evs (fst sc) m"
    unfolding recordsOnly_def by blast
  then show "\<exists>now ms. snd sc = serializeTable ct f now ms
               \<and> (\<forall>m\<in>set ms. recordOf (evs @ [ev]) (fst sc) m)"
    using recordOf_mono by blast
qed

lemma recordsOnly_arrive:
  assumes inv: "recordsOnly ct f evs st"
  shows "recordsOnly ct f (evs @ [Arrive m]) (addPrometheusMetric m st)"
proof -
  let ?evs = "evs @ [Arrive m]"
  from recordsOnly_mono [OF inv] have inv': "recordsOnly ct f ?evs st" .
  show ?thesis
  proof (cases "BeginCollection m")
    case True
    then show ?thesis
      using inv' addPrometheusMetric_begin_others [OF True, of st]
      by (simp add: recordsOnly_def addPrometheusMetric_begin_collected)
  next
    case nb: False
    show ?thesis
    proof (cases "EndCollection m")
      case True
      let ?s = "collectorOf m"
      let ?st' = "addPrometheusMetric m st"
      have 1: "collected ?st' x = (if x = ?s then [] else collected st x)" for x
        by (simp add: addPrometheusMetric_end [OF True] collected_def update_conv')
      have 2: "metricOutputTypes ?st' = metricOutputTypes st"
        "metricOutputTable ?st' = metricOutputTable st"
        "goroutines ?st' = goroutines st @ [(?s, collected st ?s)]"
        by (simp_all add: addPrometheusMetric_end [OF True])
      show ?thesis
        using inv' by (auto simp: recordsOnly_def 1 2)
    next
      case False
      let ?s = "collectorOf m"
      let ?st' = "addPrometheusMetric m st"
      have r: "recordOf ?evs ?s m"
        using nb False by (simp add: recordOf_def arrived_snoc isMarker_def)
      have 1: "collected ?st' x = (if x = ?s then collected st ?s @ [m] else collected st x)"
        for x
        by (simp add: addPrometheusMetric_record [OF nb False] collected_def update_conv')
      have 2: "metricOutputTable ?st' = metricOutputTable st"
        "goroutines ?st' = goroutines st"
        "metricOutputTypes ?st'
           = AList.update (Name m) (MetricType m \<noteq> Gauge) (metricOutputTypes st)"
        by (simp_all add: addPrometheusMetric_record [OF nb False])
      have a: "\<forall>s. \<forall>x\<in>set (collected ?st' s). recordOf ?evs s x"
        using inv' r by (auto simp: recordsOnly_def 1)
      have b: "\<forall>kt\<in>set (metricOutputTypes ?st').
                 \<exists>x\<in>set (arrived ?evs). Name x = fst kt \<and> \<not> isMarker x"
      proof
        fix kt assume "kt \<in> set (metricOutputTypes ?st')"
        then have "kt = (Name m, MetricType m \<noteq> Gauge) \<or> kt \<in> set (metricOutputTypes st)"
          using set_update_subset [of "Name m" "MetricType m \<noteq> Gauge" "metricOutputTypes st"]
          by (auto simp: 2)
        then show "\<exists>x\<in>set (arrived ?evs). Name x = fst kt \<and> \<not> isMarker x"
        proof
          assume "kt = (Name m, MetricType m \<noteq> Gauge)"
          with r show ?thesis by (auto simp: recordOf_def)
        next
          assume "kt \<in> set (metricOutputTypes st)"
          with inv' show ?thesis by (simp add: recordsOnly_def)
        qed
      qed
      show ?thesis
        unfolding recordsOnly_def using a b inv' by (simp add: 2 recordsOnly_def)
    qed
  qed
qed

lemma recordsOnly_run_goroutine:
  assumes inv: "recordsOnly ct f evs st"
  shows "recordsOnly ct f (evs @ [RunWriteTable i now]) (runGoroutine ct f i now st)"
proof (cases "i < length (goroutines st)")
  case False
  then show ?thesis
    using recordsOnly_mono [OF inv] by (simp add: runGoroutine_def)
next
  case True
  let ?evs = "evs @ [RunWriteTable i now]"
  let ?g = "goroutines st ! i"
  let ?st' = "runGoroutine ct f i now st"
  from recordsOnly_mono [OF inv] have inv': "recordsOnly ct f ?evs st" .
  have gin: "?g \<in> set (goroutines st)" using True by simp
  have g: "\<forall>m\<in>set (snd ?g). recordOf ?evs (fst ?g) m"
    using inv' gin unfolding recordsOnly_def by blast
  have 1: "goroutines ?st' = take i (goroutines st) @ drop (Suc i) (goroutines st)"
    "metricOutputTypes ?st' = metricOutputTypes st"
    "metricOutputTable ?st'
       = AList.update (fst ?g) (serializeTable ct f now (snd ?g)) (metricOutputTable st)"
    by (simp_all add: runGoroutine_eq [OF True])
  have a: "\<forall>s. \<forall>x\<in>set (collected ?st' s). recordOf ?evs s x"
    using inv' by (simp add: runGoroutine_collected recordsOnly_def)
  have b: "\<forall>g\<in>set (goroutines ?st'). \<forall>m\<in>set (snd g). recordOf ?evs (fst g) m"
  proof
    fix g' assume "g' \<in> set (goroutines ?st')"
    then have "g' \<in> set (goroutines st)"
      by (auto simp: 1 dest: in_set_takeD in_set_dropD)
    with inv' show "\<forall>m\<in>set (snd g'). recordOf ?evs (fst g') m"
      unfolding recordsOnly_def by blast
  qed
  have c: "\<forall>sc\<in>set (metricOutputTable ?st').
             \<exists>now' ms. snd sc = serializeTable ct f now' ms
                \<and> (\<forall>m\<in>set ms. recordOf ?evs (fst sc) m)"
  proof
    fix sc assume "sc \<in> set (metricOutputTable ?st')"
    then have "sc = (fst ?g, serializeTable ct f now (snd ?g)) \<or> sc \<in> set (metricOutputTable st)"
      using set_update_subset
        [of "fst ?g" "serializeTable ct f now (snd ?g)" "metricOutputTable st"]
      by (auto simp: 1)
    then show "\<exists>now' ms. snd sc = serializeTable ct f now' ms
                \<and> (\<forall>m\<in>set ms. recordOf ?evs (fst sc) m)"
    proof
      assume "sc = (fst ?g, serializeTable ct f now (snd ?g))"
      with g show ?thesis by auto
    next
      assume "sc \<in> set (metricOutputTable st)"
      with inv' show ?thesis unfolding recordsOnly_def by blast
    qed
  qed
  show ?thesis
    unfolding recordsOnly_def using a b c inv' by (simp add: 1 recordsOnly_def)
qed

lemma recordsOnly_run: "recordsOnly ct f evs (cacheRun ct f initTables evs)"
proof (induction evs rule: rev_induct)
  case Nil
  then show ?case by (simp add: cacheRun_def recordsOnly_init)
next
  case (snoc ev evs)
  show ?case
  proof (cases ev)
    case (Arrive m)
    with snoc show ?thesis by (simp add: cacheRun_snoc recordsOnly_arrive)
  next
    case (RunWriteTable i now)
    with snoc show ?thesis by (simp add: cacheRun_snoc recordsOnly_run_goroutine)
  qed
qed

text \<open>The payload and the bodies, as lines.\<close>

lemma serializeTable_fold:
  "foldl (\<lambda>out m. if \<not> nameMatcher_MatchString (getMetricKey ct m) then out
                   else out @ sampleLine ct f now m) acc ms
     = acc @ sampleLines ct f (now, ms)"
  by (induction ms arbitrary: acc) (simp_all add: sampleLines_def)

lemma serializeTable_sampleLines: "serializeTable ct f now ms = sampleLines ct f (now, ms)"
  using serializeTable_fold [of ct f now "[]" ms] by (simp add: serializeTable_def)

lemma types_fold:
  "foldl (\<lambda>(out, logged) (k, t).
            if nameMatcher_MatchString k then (out @ typeLine ct k t, logged)
            else (out, logged @ [g k])) (out0, lg0) types
     = (out0 @ typeLines ct types,
        lg0 @ map (\<lambda>(k, t). g k) (filter (\<lambda>(k, t). \<not> nameMatcher_MatchString k) types))"
  by (induction types arbitrary: out0 lg0) (auto simp: typeLines_def)

lemma bodies_fold:
  "foldl (\<lambda>out (name, chunk). out @ chunk) out0 table = out0 @ concat (map snd table)"
  by (induction table arbitrary: out0) auto

lemma PrometheustableRead_payload:
  "fst (PrometheustableRead ct st)
     = typeLines ct (metricOutputTypes st) @ concat (map snd (metricOutputTable st))"
  by (simp add: PrometheustableRead_def types_fold bodies_fold)

lemma marker_names:
  "isMarker m = (Name m = ''fullerite.begin_collection'' \<or> Name m = ''fullerite.end_collection'')"
  by (simp add: isMarker_def BeginCollection_def EndCollection_def)

text \<open>
  Claim C7, as the code has it. A begin or end marker is consumed: processing one adds
  nothing to a working list, to the type table or to the output table, and starts no
  goroutine on a list that holds it. So after any run of the cache from its initial
  state, every metric in a working list or in a list taken for publication is a metric
  that arrived for that source and is not a marker; every name in the type table is the
  name of an arrived metric that is not a marker, hence neither marker name; every
  published body consists of the sample lines of arrived metrics of its source that are
  not markers; and the payload is the type lines followed by these bodies. Every other
  metric, whatever its name, is appended to the working list of its source and entered
  in the type table.
\<close>

theorem markers_are_never_stored:
  "(\<forall>s. \<forall>x\<in>set (collected (cacheRun ct f initTables evs) s).
        x \<in> set (arrived evs) \<and> collectorOf x = s \<and> \<not> isMarker x)
   \<and> (\<forall>g\<in>set (goroutines (cacheRun ct f initTables evs)). \<forall>x\<in>set (snd g).
        x \<in> set (arrived evs) \<and> collectorOf x = fst g \<and> \<not> isMarker x)
   \<and> (\<forall>kt\<in>set (metricOutputTypes (cacheRun ct f initTables evs)).
        fst kt \<noteq> ''fullerite.begin_collection'' \<and> fst kt \<noteq> ''fullerite.end_collection''
        \<and> (\<exists>x\<in>set (arrived evs). Name x = fst kt \<and> \<not> isMarker x))
   \<and> (\<forall>sc\<in>set (metricOutputTable (cacheRun ct f initTables evs)).
        \<exists>now ms. snd sc = sampleLines ct f (now, ms)
           \<and> (\<forall>x\<in>set ms. x \<in> set (arrived evs) \<and> collectorOf x = fst sc \<and> \<not> isMarker x))
   \<and> fst (PrometheustableRead ct (cacheRun ct f initTables evs))
       = typeLines ct (metricOutputTypes (cacheRun ct f initTables evs))
         @ concat (map snd (metricOutputTable (cacheRun ct f initTables evs)))
   \<and> (isMarker m \<longrightarrow>
        (\<forall>s. set (collected (addPrometheusMetric m st) s) \<subseteq> set (collected st s))
        \<and> metricOutputTypes (addPrometheusMetric m st) = metricOutputTypes st
        \<and> metricOutputTable (addPrometheusMetric m st) = metricOutputTable st
        \<and> set (goroutines (addPrometheusMetric m st))
            \<subseteq> insert (collectorOf m, collected st (collectorOf m)) (set (goroutines st)))
   \<and> (\<not> isMarker m \<longrightarrow>
        collected (addPrometheusMetric m st) (collectorOf m) = collected st (collectorOf m) @ [m]
        \<and> map_of (metricOutputTypes (addPrometheusMetric m st)) (Name m)
            = Some (MetricType m \<noteq> Gauge))"
proof -
  let ?st = "cacheRun ct f initTables evs"
  have inv: "recordsOnly ct f evs ?st" by (rule recordsOnly_run)
  have a: "\<forall>s. \<forall>x\<in>set (collected ?st s).
             x \<in> set (arrived evs) \<and> collectorOf x = s \<and> \<not> isMarker x"
    using inv by (simp add: recordsOnly_def recordOf_def)
  have b: "\<forall>g\<in>set (goroutines ?st). \<forall>x\<in>set (snd g).
             x \<in> set (arrived evs) \<and> collectorOf x = fst g \<and> \<not> isMarker x"
    using inv by (simp add: recordsOnly_def recordOf_def)
  have c: "\<forall>kt\<in>set (metricOutputTypes ?st).
        fst kt \<noteq> ''fullerite.begin_collection'' \<and> fst kt \<noteq> ''fullerite.end_collection''
        \<and> (\<exists>x\<in>set (arrived evs). Name x = fst kt \<and> \<not> isMarker x)"
  proof
    fix kt assume "kt \<in> set (metricOutputTypes ?st)"
    with inv obtain x where x: "x \<in> set (arrived evs)" "Name x = fst kt" "\<not> isMarker x"
      unfolding recordsOnly_def by blast
    from x(2,3) have "fst kt \<noteq> ''fullerite.begin_collection''"
      "fst kt \<noteq> ''fullerite.end_collection''"
      by (auto simp: marker_names)
    with x show "fst kt \<noteq> ''fullerite.begin_collection'' \<and> fst kt \<noteq> ''fullerite.end_collection''
        \<and> (\<exists>x\<in>set (arrived evs). Name x = fst kt \<and> \<not> isMarker x)"
      by blast
  qed
  have d: "\<forall>sc\<in>set (metricOutputTable ?st).
        \<exists>now ms. snd sc = sampleLines ct f (now, ms)
           \<and> (\<forall>x\<in>set ms. x \<in> set (arrived evs) \<and> collectorOf x = fst sc \<and> \<not> isMarker x)"
    using inv by (simp add: recordsOnly_def recordOf_def serializeTable_sampleLines)
  have e: "isMarker m \<longrightarrow>
        (\<forall>s. set (collected (addPrometheusMetric m st) s) \<subseteq> set (collected st s))
        \<and> metricOutputTypes (addPrometheusMetric m st) = metricOutputTypes st
        \<and> metricOutputTable (addPrometheusMetric m st) = metricOutputTable st
        \<and> set (goroutines (addPrometheusMetric m st))
            \<subseteq> insert (collectorOf m, collected st (collectorOf m)) (set (goroutines st))"
  proof
    assume "isMarker m"
    then consider "BeginCollection m" | "EndCollection m" "\<not> BeginCollection m"
      by (auto simp: isMarker_def)
    then show "(\<forall>s. set (collected (addPrometheusMetric m st) s) \<subseteq> set (collected st s))
        \<and> metricOutputTypes (addPrometheusMetric m st) = metricOutputTypes st
        \<and> metricOutputTable (addPrometheusMetric m st) = metricOutputTable st
        \<and> set (goroutines (addPrometheusMetric m st))
            \<subseteq> insert (collectorOf m, collected st (collectorOf m)) (set (goroutines st))"
    proof cases
      case 1
      then show ?thesis
        using addPrometheusMetric_begin_others [OF 1, of st]
        by (auto simp: addPrometheusMetric_begin_collected)
    next
      case 2
      then show ?thesis
        by (auto simp: addPrometheusMetric_end collected_def update_conv')
    qed
  qed
  have g: "\<not> isMarker m \<longrightarrow>
        collected (addPrometheusMetric m st) (collectorOf m) = collected st (collectorOf m) @ [m]
        \<and> map_of (metricOutputTypes (addPrometheusMetric m st)) (Name m)
            = Some (MetricType m \<noteq> Gauge)"
    by (simp add: isMarker_def addPrometheusMetric_record collected_def update_conv')
  show ?thesis
    by (intro conjI) (fact a, fact b, fact c, fact d, fact PrometheustableRead_payload, fact e, fact g)
qed

theorem markers_are_never_stored_witness:
  "isMarker (metric_EndCollection ''Test'' :: int Metric)
   \<and> \<not> isMarker (AddDimension ''collector'' ''Test'' (metric_WithValue ''mem'' (3::int)))
   \<and> collected (cacheRun (\<lambda>r. r) sprintf_f_integral initTables
          [Arrive (metric_BeginCollection ''Test''),
           Arrive (AddDimension ''collector'' ''Test'' (metric_WithValue ''cpu'' 7)),
           Arrive (metric_EndCollection ''Test''),
           RunWriteTable 0 1000,
           Arrive (metric_BeginCollection ''Test''),
           Arrive (AddDimension ''collector'' ''Test'' (metric_WithValue ''mem'' 3))]) ''Test''
      = [AddDimension ''collector'' ''Test'' (metric_WithValue ''mem'' 3)]
   \<and> metricOutputTypes (cacheRun (\<lambda>r. r) sprintf_f_integral initTables
          [Arrive (metric_BeginCollection ''Test''),
           Arrive (AddDimension ''collector'' ''Test'' (metric_WithValue ''cpu'' 7)),
           Arrive (metric_EndCollection ''Test''),
           RunWriteTable 0 1000,
           Arrive (metric_BeginCollection ''Test''),
           Arrive (AddDimension ''collector'' ''Test'' (metric_WithValue ''mem'' 3))])
      = [(''cpu'', False), (''mem'', False)]
   \<and> fst (PrometheustableRead (\<lambda>r. r) (cacheRun (\<lambda>r. r) sprintf_f_integral initTables
          [Arrive (metric_BeginCollection ''Test''),
           Arrive (AddDimension ''collector'' ''Test'' (metric_WithValue ''cpu'' 7)),
           Arrive (metric_EndCollection ''Test''),
           RunWriteTable 0 1000,
           Arrive (metric_BeginCollection ''Test''),
           Arrive (AddDimension ''collector'' ''Test'' (metric_WithValue ''mem'' 3))]))
      = ''# TYPE cpu gauge'' @ [CHR 0x0A] @ ''# TYPE mem gauge'' @ [CHR 0x0A]
        @ ''cpu{collector='' @ [CHR 0x22] @ ''Test'' @ [CHR 0x22] @ ''} 7.000000 1000''
        @ [CHR 0x0A]
   \<and> metricOutputTypes (addPrometheusMetric (metric_EndCollection ''Test'')
          (initTables :: int PrometheusTables)) = []"
  using markers_are_never_stored
    [of "\<lambda>r. r" sprintf_f_integral
        "[Arrive (metric_BeginCollection ''Test''),
           Arrive (AddDimension ''collector'' ''Test'' (metric_WithValue ''cpu'' 7)),
           Arrive (metric_EndCollection ''Test''),
           RunWriteTable 0 1000,
           Arrive (metric_BeginCollection ''Test''),
           Arrive (AddDimension ''collector'' ''Test'' (metric_WithValue ''mem'' 3))]"
        "metric_EndCollection ''Test''" initTables]
  by (simp add: metric_eval string_eval cache_eval isMarker_def typeLines_def)

text \<open>
  The claim as stated fails for the overrun counter: the metric built by
  \<open>reportCollector\<close>, stamped by the dispatcher and followed by the end marker of its
  source, is published as an ordinary sample with its type declaration once the
  goroutine of the end marker has run.
\<close>

theorem overrun_metric_is_serialized_counterexample:
  "PrometheustableRead (\<lambda>r. r)
     (cacheRun (\<lambda>r. r) sprintf_f_integral initTables
        [Arrive (snd (resolveSource
                 \<lparr>CollectorName = ''Test'', CanonicalName = ''Test'', Interval = 1,
                  Prefix = [], Blacklist = [], CollectorType = ''poller''\<rparr>
                 (reportCollector
                    \<lparr>CollectorName = ''Test'', CanonicalName = ''Test'', Interval = 1,
                     Prefix = [], Blacklist = [], CollectorType = ''poller''\<rparr>))),
         Arrive (metric_EndCollection ''Test''),
         RunWriteTable 0 1000])
   = (''# TYPE fullerite_collection_time_exceeded counter'' @ [CHR 0x0A]
      @ ''fullerite_collection_time_exceeded{interval='' @ [CHR 0x22] @ ''1'' @ [CHR 0x22]
      @ '',collector='' @ [CHR 0x22] @ ''Test'' @ [CHR 0x22] @ ''} 1.000000 1000''
      @ [CHR 0x0A], [])"
  by (simp add: metric_eval string_eval cache_eval resolveSource_def reportCollector_def)

section \<open>Snapshot cache: the validity filter\<close>

text \<open>
  Claim C2 asks that a record whose sanitized name does not have the shape
  \<open>[a-zA-Z_:][a-zA-Z0-9_:]*\<close> yield no sample line and no type declaration. The code
  tests whether the key (name and label block together) \<^emph>\<open>contains\<close> a match, and for
  the type declaration whether the raw name does. The name \<open>1abc\<close> is not of that shape,
  yet its sample line and its type declaration are both published; the name \<open>123\<close>
  contains no match at all, yet its sample line is published, the letters of the label
  block having satisfied the test, while its type declaration is dropped and logged.
  In both runs the record arrives, the end marker of its source follows, and the
  goroutine that the end marker starts runs.
\<close>

theorem invalid_name_is_published:
  "\<not> validMetricName (sanitize (\<lambda>r. r) ''1abc'')
   \<and> PrometheustableRead (\<lambda>r. r)
       (cacheRun (\<lambda>r. r) sprintf_f_integral initTables
          [Arrive (AddDimension ''collector'' ''Test'' (metric_New ''1abc'')),
           Arrive (metric_EndCollection ''Test''),
           RunWriteTable 0 1000])
     = (''# TYPE 1abc gauge'' @ [CHR 0x0A]
        @ ''1abc{collector='' @ [CHR 0x22] @ ''Test'' @ [CHR 0x22] @ ''} 0.000000 1000''
        @ [CHR 0x0A], [])
   \<and> \<not> nameMatcher_MatchString (sanitize (\<lambda>r. r) ''123'')
   \<and> PrometheustableRead (\<lambda>r. r)
       (cacheRun (\<lambda>r. r) sprintf_f_integral initTables
          [Arrive (AddDimension ''collector'' ''Test'' (metric_New ''123'')),
           Arrive (metric_EndCollection ''Test''),
           RunWriteTable 0 1000])
     = (''123{collector='' @ [CHR 0x22] @ ''Test'' @ [CHR 0x22] @ ''} 0.000000 1000''
        @ [CHR 0x0A],
        [''Non prometheus compatible metric name stored: '' @ [CHR 0x27] @ ''123'' @ [CHR 0x27]])"
  by (simp add: metric_eval string_eval cache_eval)

section \<open>Collector runner: the overrun report\<close>

lemma Second_deadline: "sint ((1 + staggerValue) * Second) = 2000000000"
  by (simp add: staggerValue_def Second_def)

lemma collectionDeadline_one: "Interval col = 1 \<Longrightarrow> collectionDeadline col = 2000000000"
  by (simp add: collectionDeadline_def Second_deadline)

lemma collectionDeadline_exact:
  assumes "0 \<le> sint (Interval col)" "sint (Interval col) < 9223372035"
  shows "collectionDeadline col = (sint (Interval col) + 1) * 1000000000"
proof -
  define i where "i = sint (Interval col)"
  have w: "Interval col = word_of_int i" by (simp add: i_def)
  have "(Interval col + staggerValue) * Second = word_of_int ((i + 1) * 1000000000)"
    by (simp add: w staggerValue_def Second_def)
  moreover have "sint (word_of_int ((i + 1) * 1000000000) :: 64 word) = (i + 1) * 1000000000"
    unfolding sint_sbintrunc'
    using assms by (intro signed_take_bit_int_eq_self) (simp_all add: i_def)
  ultimately show ?thesis by (simp add: collectionDeadline_def i_def)
qed

lemma countdownTimer_late:
  "collectTime < collectionDeadline col \<Longrightarrow> countdownTimer col collectTime stopWinsTie = []"
  by (auto simp: countdownTimer_def Let_def max_def)

lemma countdownTimer_overrun:
  "0 \<le> collectionDeadline col \<Longrightarrow> collectionDeadline col < collectTime \<Longrightarrow>
   countdownTimer col collectTime stopWinsTie = [(collectionDeadline col, reportCollector col)]"
  by (simp add: countdownTimer_def Let_def)

text \<open>
  Claim C4. The overrun metric built by \<open>reportCollector\<close> has the reserved overrun
  name, the type Counter, the value 1 and the single dimension \<open>interval\<close> with the
  interval of the collector in decimal, \<open>1\<close> for interval 1. The watchdog of a collector
  that is not a listener is armed at interval plus one seconds, two seconds for interval
  1. When \<open>Collect()\<close> takes five seconds, the timer fires once, at two seconds, so the
  round pushes the begin marker, then the pushes of \<open>Collect()\<close> with exactly one
  overrun metric placed among them by its time, before the return of \<open>Collect()\<close>, and
  the end marker at five seconds, when \<open>Collect()\<close> returns: all pushes of
  \<open>Collect()\<close> are there, so the invocation was not cut short. When \<open>Collect()\<close>
  returns before the deadline, the timer is stopped and the round pushes the two markers
  and the pushes of \<open>Collect()\<close> only.
\<close>

theorem overrun_is_reported_once:
  "Name (reportCollector col) = ''fullerite.collection_time_exceeded''
   \<and> MetricType (reportCollector col) = Counter
   \<and> Value (reportCollector col) = 1
   \<and> Dimensions (reportCollector col) = [(''interval'', sprintf_d (sint (Interval col)))]
   \<and> (Interval col = 1 \<longrightarrow>
        GetDimensionValue (reportCollector col) ''interval'' = Some ''1''
        \<and> collectionDeadline col = 2 * 1000000000)
   \<and> (0 \<le> sint (Interval col) \<and> sint (Interval col) < 9223372035 \<longrightarrow>
        collectionDeadline col = (sint (Interval col) + 1) * 1000000000)
   \<and> (Interval col = 1 \<and> CollectorType col \<noteq> ''listener'' \<longrightarrow>
        countdownTimer col (5 * 1000000000) stopWinsTie
          = [(2 * 1000000000, reportCollector col)]
        \<and> runCollector_tick col (5 * 1000000000) stopWinsTie collectPushes
            = (0, metric_BeginCollection (CollectorName col))
              # insort_key fst (2 * 1000000000, reportCollector col) collectPushes
              @ [(5 * 1000000000, metric_EndCollection (CollectorName col))]
        \<and> remove1 (2 * 1000000000, reportCollector col)
             (insort_key fst (2 * 1000000000, reportCollector col) collectPushes)
            = collectPushes)
   \<and> (collectTime < collectionDeadline col \<longrightarrow>
        countdownTimer col collectTime stopWinsTie = []
        \<and> runCollector_tick col collectTime stopWinsTie collectPushes
            = (0, metric_BeginCollection (CollectorName col)) # collectPushes
              @ [(collectTime, metric_EndCollection (CollectorName col))])"
proof -
  have a: "Name (reportCollector col) = ''fullerite.collection_time_exceeded''"
    "MetricType (reportCollector col) = Counter"
    "Value (reportCollector col) = 1"
    "Dimensions (reportCollector col) = [(''interval'', sprintf_d (sint (Interval col)))]"
    by (simp_all add: reportCollector_def AddDimension_def metric_New_def)
  have b: "Interval col = 1 \<longrightarrow>
        GetDimensionValue (reportCollector col) ''interval'' = Some ''1''
        \<and> collectionDeadline col = 2 * 1000000000"
    by (simp add: GetDimensionValue_def a(4) collectionDeadline_one sprintf_d_def
          digits10.simps char_of_nat_eval)
  have c: "0 \<le> sint (Interval col) \<and> sint (Interval col) < 9223372035 \<longrightarrow>
        collectionDeadline col = (sint (Interval col) + 1) * 1000000000"
    using collectionDeadline_exact [of col] by blast
  have d: "Interval col = 1 \<and> CollectorType col \<noteq> ''listener'' \<longrightarrow>
        countdownTimer col (5 * 1000000000) stopWinsTie
          = [(2 * 1000000000, reportCollector col)]
        \<and> runCollector_tick col (5 * 1000000000) stopWinsTie collectPushes
            = (0, metric_BeginCollection (CollectorName col))
              # insort_key fst (2 * 1000000000, reportCollector col) collectPushes
              @ [(5 * 1000000000, metric_EndCollection (CollectorName col))]
        \<and> remove1 (2 * 1000000000, reportCollector col)
             (insort_key fst (2 * 1000000000, reportCollector col) collectPushes)
            = collectPushes"
  proof
    assume h: "Interval col = 1 \<and> CollectorType col \<noteq> ''listener''"
    then have dl: "collectionDeadline col = 2000000000" by (simp add: collectionDeadline_one)
    have t: "countdownTimer col 5000000000 stopWinsTie = [(2000000000, reportCollector col)]"
      using countdownTimer_overrun [of col 5000000000 stopWinsTie] by (simp add: dl)
    show "countdownTimer col (5 * 1000000000) stopWinsTie
          = [(2 * 1000000000, reportCollector col)]
        \<and> runCollector_tick col (5 * 1000000000) stopWinsTie collectPushes
            = (0, metric_BeginCollection (CollectorName col))
              # insort_key fst (2 * 1000000000, reportCollector col) collectPushes
              @ [(5 * 1000000000, metric_EndCollection (CollectorName col))]
        \<and> remove1 (2 * 1000000000, reportCollector col)
             (insort_key fst (2 * 1000000000, reportCollector col) collectPushes)
            = collectPushes"
      using h by (simp add: runCollector_tick_def t)
  qed
  have e: "collectTime < collectionDeadline col \<longrightarrow>
        countdownTimer col collectTime stopWinsTie = []
        \<and> runCollector_tick col collectTime stopWinsTie collectPushes
            = (0, metric_BeginCollection (CollectorName col)) # collectPushes
              @ [(collectTime, metric_EndCollection (CollectorName col))]"
    by (simp add: runCollector_tick_def countdownTimer_late)
  show ?thesis
    by (intro conjI) (fact a(1), fact a(2), fact a(3), fact a(4), fact b, fact c, fact d, fact e)
qed

theorem overrun_is_reported_once_witness:
  "Interval \<lparr>CollectorName = ''Test'', CanonicalName = ''Test'', Interval = 1,
              Prefix = [], Blacklist = [], CollectorType = ''poller''\<rparr> = 1
   \<and> CollectorType \<lparr>CollectorName = ''Test'', CanonicalName = ''Test'', Interval = 1,
              Prefix = [], Blacklist = [], CollectorType = ''poller''\<rparr> \<noteq> ''listener''
   \<and> runCollector_tick
        \<lparr>CollectorName = ''Test'', CanonicalName = ''Test'', Interval = 1,
         Prefix = [], Blacklist = [], CollectorType = ''poller''\<rparr>
        5000000000 True
        [(1000000000, metric_WithValue ''cpu'' 7), (3000000000, metric_WithValue ''mem'' 3)]
     = [(0, metric_BeginCollection ''Test''),
        (1000000000, metric_WithValue ''cpu'' 7),
        (2000000000,
         \<lparr>Name = ''fullerite.collection_time_exceeded'', MetricType = ''counter'', Value = 1,
          Dimensions = [(''interval'', ''1'')]\<rparr>),
        (3000000000, metric_WithValue ''mem'' 3),
        (5000000000, metric_EndCollection ''Test'')]
   \<and> (1500000000 :: int)
       < collectionDeadline \<lparr>CollectorName = ''Test'', CanonicalName = ''Test'', Interval = 1,
                             Prefix = [], Blacklist = [], CollectorType = ''poller''\<rparr>
   \<and> runCollector_tick
        \<lparr>CollectorName = ''Test'', CanonicalName = ''Test'', Interval = 1,
         Prefix = [], Blacklist = [], CollectorType = ''poller''\<rparr>
        1500000000 True
        [(1000000000, metric_WithValue ''cpu'' 7)]
     = [(0, metric_BeginCollection ''Test''),
        (1000000000, metric_WithValue ''cpu'' 7),
        (1500000000, metric_EndCollection ''Test'')]"
  using overrun_is_reported_once
    [of "\<lparr>CollectorName = ''Test'', CanonicalName = ''Test'', Interval = 1,
          Prefix = [], Blacklist = [], CollectorType = ''poller''\<rparr>"
        True
        "[(1000000000, metric_WithValue ''cpu'' 7), (3000000000, metric_WithValue ''mem'' 3)]"
        1500000000]
    overrun_is_reported_once
    [of "\<lparr>CollectorName = ''Test'', CanonicalName = ''Test'', Interval = 1,
          Prefix = [], Blacklist = [], CollectorType = ''poller''\<rparr>"
        True
        "[(1000000000, metric_WithValue ''cpu'' 7)]"
        1500000000]
  by (simp add: reportCollector_def AddDimension_def metric_New_def Counter_def
        sprintf_d_def digits10.simps char_of_nat_eval)

section \<open>Dispatcher: source resolution and fan-out\<close>

lemma set_fanOut:
  "set (fanOut hs c x)
     = {(i, c, x) | i. i < length hs \<and> map_of (CollectorEndpoints (hs ! i)) c \<noteq> None}"
  by (auto simp: fanOut_def in_set_enumerate_eq image_iff)

text \<open>
  Claim C5. For a metric read from the channel of a collector, the routing key is the
  value of its \<open>collectorCanonicalName\<close> dimension if it has one and the canonical name
  of the collector otherwise; the metric that goes on has no \<open>collectorCanonicalName\<close>
  dimension, has the \<open>collector\<close> dimension it came with or, if it came with none, the
  name of the collector, and is otherwise unchanged. Unless its name is blacklisted, it
  is delivered (with the prefix of the collector, if any, put before its name) to
  exactly the handlers that have an endpoint under the routing key, on that endpoint.
\<close>

theorem source_resolution:
  "(case resolveSource col m of
      (c, m1) \<Rightarrow>
        c = (case GetDimensionValue m ''collectorCanonicalName'' of
               Some v \<Rightarrow> v | None \<Rightarrow> CanonicalName col)
        \<and> GetDimensionValue m1 k
            = (if k = ''collectorCanonicalName'' then None
               else if k = ''collector''
                 then (case GetDimensionValue m ''collector'' of
                         None \<Rightarrow> Some (CollectorName col) | Some v \<Rightarrow> Some v)
               else GetDimensionValue m k)
        \<and> Name m1 = Name m \<and> MetricType m1 = MetricType m \<and> Value m1 = Value m
        \<and> delivered (readFromCollector_step rm col hs sc st (m, t, t'))
            = delivered st
              @ (if stringInSlice rm (Name m) (Blacklist col) then []
                 else fanOut hs c
                        (if 0 < length (Prefix col) then m1\<lparr>Name := Prefix col @ Name m\<rparr>
                         else m1)))
   \<and> set (fanOut hs c' x)
       = {(i, c', x) | i. i < length hs \<and> map_of (CollectorEndpoints (hs ! i)) c' \<noteq> None}"
proof -
  obtain c m1 where r: "resolveSource col m = (c, m1)" by (cases "resolveSource col m")
  have n: "Name m1 = Name m" "MetricType m1 = MetricType m" "Value m1 = Value m"
    using r by (auto simp: resolveSource_def Let_def AddDimension_def RemoveDimension_def
        split: option.splits if_splits)
  have c: "c = (case GetDimensionValue m ''collectorCanonicalName'' of
               Some v \<Rightarrow> v | None \<Rightarrow> CanonicalName col)"
    using r by (auto simp: resolveSource_def Let_def AddDimension_def GetDimensionValue_def
        update_conv' split: option.splits if_splits)
  have d: "GetDimensionValue m1 k
            = (if k = ''collectorCanonicalName'' then None
               else if k = ''collector''
                 then (case GetDimensionValue m ''collector'' of
                         None \<Rightarrow> Some (CollectorName col) | Some v \<Rightarrow> Some v)
               else GetDimensionValue m k)"
    using r by (auto simp: resolveSource_def Let_def AddDimension_def RemoveDimension_def
        GetDimensionValue_def update_conv' delete_conv' split: option.splits if_splits)
  have s: "delivered (readFromCollector_step rm col hs sc st (m, t, t'))
            = delivered st
              @ (if stringInSlice rm (Name m) (Blacklist col) then []
                 else fanOut hs c
                        (if 0 < length (Prefix col) then m1\<lparr>Name := Prefix col @ Name m\<rparr>
                         else m1))"
    by (simp add: readFromCollector_step_def r n Let_def emitCollectorStats_def)
  show ?thesis
    unfolding r prod.case using n c d s set_fanOut [of hs c' x] by blast
qed

section \<open>Dispatcher: emission counters\<close>

lemma countedFor_alt: "countedFor rm col c evs = length (filter (isCounted rm col c) evs)"
  by (simp add: countedFor_def)

lemma countedFor_snoc:
  "countedFor rm col c (evs @ [ev]) = countedFor rm col c evs + (if isCounted rm col c ev then 1 else 0)"
  by (simp add: countedFor_alt)

lemma countedFor_le: "countedFor rm col c evs \<le> length evs"
  by (simp add: countedFor_alt)

lemma loop_snoc:
  "readFromCollector_loop rm col hs sc start (evs @ [ev])
     = readFromCollector_step rm col hs sc (readFromCollector_loop rm col hs sc start evs) ev"
  by (simp add: readFromCollector_loop_def)

lemma readFromCollector_loop_eq:
  "readFromCollector rm col hs sc start evs
     = (readFromCollector_loop rm col hs sc start evs)\<lparr>statChansClosed := True\<rparr>"
  by (simp add: readFromCollector_def readFromCollector_loop_def)

lemma emissionCount_closed [simp]:
  "emissionCount (st\<lparr>statChansClosed := b\<rparr>) c = emissionCount st c"
  by (simp add: emissionCount_def)

text \<open>One round: the counters.\<close>

lemma step_emissionCounter:
  "emissionCounter (readFromCollector_step rm col hs sc st ev)
     = (if stringInSlice rm (Name (snd (resolveSource col (fst ev)))) (Blacklist col)
        then emissionCounter st
        else AList.update (fst (resolveSource col (fst ev)))
               (emissionCount st (fst (resolveSource col (fst ev))) + 1) (emissionCounter st))"
  by (cases ev)
     (simp add: readFromCollector_step_def Let_def emitCollectorStats_def split: prod.splits)

lemma step_emissionCount:
  "emissionCount (readFromCollector_step rm col hs sc st ev) c
     = emissionCount st c + (if isCounted rm col c ev then 1 else 0)"
  by (simp add: emissionCount_def step_emissionCounter isCounted_def update_conv')

lemma step_distinct:
  "distinct (map fst (emissionCounter st)) \<Longrightarrow>
   distinct (map fst (emissionCounter (readFromCollector_step rm col hs sc st ev)))"
  by (simp add: step_emissionCounter distinct_update)

lemma loop_distinct: "distinct (map fst (emissionCounter (readFromCollector_loop rm col hs sc start evs)))"
  by (induction evs rule: rev_induct)
     (simp_all add: loop_snoc step_distinct, simp add: readFromCollector_loop_def startDispatcher_def)

lemma loop_emissionCount:
  "emissionCount (readFromCollector_loop rm col hs sc start evs) c = of_nat (countedFor rm col c evs)"
proof (induction evs rule: rev_induct)
  case Nil
  then show ?case
    by (simp add: readFromCollector_loop_def startDispatcher_def emissionCount_def countedFor_def)
next
  case (snoc ev evs)
  then show ?case
    by (simp add: loop_snoc step_emissionCount countedFor_snoc)
qed

text \<open>One round: the statistics sent.\<close>

lemma step_statsSent_eq:
  "statsSent (readFromCollector_step rm col hs sc st ev)
     = statsSent st
       @ (if \<not> stringInSlice rm (Name (snd (resolveSource col (fst ev)))) (Blacklist col)
             \<and> 0 < sc \<and> lastEmission st + statDuration col < fst (snd ev)
          then emissionCounter (readFromCollector_step rm col hs sc st ev) else [])"
  by (cases ev)
     (simp add: readFromCollector_step_def Let_def emitCollectorStats_def split: prod.splits)

lemma step_lastEmission:
  "lastEmission (readFromCollector_step rm col hs sc st ev)
     = (if \<not> stringInSlice rm (Name (snd (resolveSource col (fst ev)))) (Blacklist col)
           \<and> 0 < sc \<and> lastEmission st + statDuration col < fst (snd ev)
        then snd (snd ev) else lastEmission st)"
  by (cases ev)
     (simp add: readFromCollector_step_def Let_def emitCollectorStats_def split: prod.splits)

lemma step_statsSent:
  "\<exists>batch. statsSent (readFromCollector_step rm col hs sc st ev) = statsSent st @ batch
     \<and> (batch = [] \<or> batch = emissionCounter (readFromCollector_step rm col hs sc st ev))"
  by (simp add: step_statsSent_eq)

lemma in_counter_is_count:
  "distinct (map fst (emissionCounter st)) \<Longrightarrow> (c, n) \<in> set (emissionCounter st) \<Longrightarrow>
   n = emissionCount st c"
  by (simp add: emissionCount_def)

lemma loop_stats_are_totals:
  "(c, n) \<in> set (statsSent (readFromCollector_loop rm col hs sc start evs)) \<Longrightarrow>
   \<exists>k. 0 < k \<and> k \<le> length evs \<and> n = of_nat (countedFor rm col c (take k evs))"
proof (induction evs rule: rev_induct)
  case Nil
  then show ?case by (simp add: readFromCollector_loop_def startDispatcher_def)
next
  case (snoc ev evs)
  let ?st = "readFromCollector_loop rm col hs sc start evs"
  let ?st' = "readFromCollector_loop rm col hs sc start (evs @ [ev])"
  obtain batch where b: "statsSent ?st' = statsSent ?st @ batch"
    and bb: "batch = [] \<or> batch = emissionCounter ?st'"
    using step_statsSent [of rm col hs sc ?st ev] by (auto simp: loop_snoc)
  from snoc.prems b have "(c, n) \<in> set (statsSent ?st) \<or> (c, n) \<in> set batch" by simp
  then show ?case
  proof
    assume "(c, n) \<in> set (statsSent ?st)"
    then obtain k where "0 < k" "k \<le> length evs" "n = of_nat (countedFor rm col c (take k evs))"
      using snoc.IH by blast
    then show ?thesis by (intro exI [of _ k]) simp
  next
    assume "(c, n) \<in> set batch"
    with bb have "(c, n) \<in> set (emissionCounter ?st')" by auto
    then have "n = emissionCount ?st' c"
      using in_counter_is_count [OF loop_distinct] by blast
    then have "n = of_nat (countedFor rm col c (evs @ [ev]))"
      by (simp add: loop_emissionCount)
    then show ?thesis by (intro exI [of _ "length (evs @ [ev])"]) simp
  qed
qed

lemma sorted_all_equal: "\<forall>x\<in>set xs. x = (v::nat) \<Longrightarrow> sorted xs"
  by (induction xs) auto

lemma unat_count:
  "n < 2 ^ 64 \<Longrightarrow> unat (of_nat n :: 64 word) = n"
  by (simp add: unat_of_nat)

lemma loop_stats_sorted:
  "length evs < 2 ^ 64 \<Longrightarrow>
   sorted (map (unat \<circ> snd) (filter (\<lambda>p. fst p = c) (statsSent (readFromCollector_loop rm col hs sc start evs))))
   \<and> (\<forall>p\<in>set (filter (\<lambda>p. fst p = c) (statsSent (readFromCollector_loop rm col hs sc start evs))).
         unat (snd p) \<le> countedFor rm col c evs)"
proof (induction evs rule: rev_induct)
  case Nil
  then show ?case by (simp add: readFromCollector_loop_def startDispatcher_def)
next
  case (snoc ev evs)
  let ?st = "readFromCollector_loop rm col hs sc start evs"
  let ?st' = "readFromCollector_loop rm col hs sc start (evs @ [ev])"
  let ?f = "filter (\<lambda>p. fst p = c)"
  let ?N = "countedFor rm col c (evs @ [ev])"
  from snoc.prems have len: "length evs < 2 ^ 64" by simp
  have N: "?N < 2 ^ 64"
    using countedFor_le [of rm col c "evs @ [ev]"] snoc.prems by linarith
  have mono: "countedFor rm col c evs \<le> ?N" by (simp add: countedFor_snoc)
  obtain batch where b: "statsSent ?st' = statsSent ?st @ batch"
    and bb: "batch = [] \<or> batch = emissionCounter ?st'"
    using step_statsSent [of rm col hs sc ?st ev] by (auto simp: loop_snoc)
  have new: "unat (snd p) = ?N" if "p \<in> set (?f batch)" for p
  proof -
    from that have pb: "p \<in> set batch" and pc: "fst p = c" by simp_all
    from pb bb have "p \<in> set (emissionCounter ?st')" by auto
    with pc have "(c, snd p) \<in> set (emissionCounter ?st')" by (cases p) simp
    then have "snd p = emissionCount ?st' c"
      using in_counter_is_count [OF loop_distinct] by blast
    then show ?thesis using N by (simp add: loop_emissionCount unat_count)
  qed
  have old: "unat (snd p) \<le> countedFor rm col c evs" if "p \<in> set (?f (statsSent ?st))" for p
    using snoc.IH [OF len] that by blast
  have s1: "sorted (map (unat \<circ> snd) (?f (statsSent ?st)))"
    using snoc.IH [OF len] by blast
  have s2: "sorted (map (unat \<circ> snd) (?f batch))"
    by (rule sorted_all_equal [of _ ?N]) (use new in auto)
  have s3: "\<forall>x\<in>set (map (unat \<circ> snd) (?f (statsSent ?st))).
            \<forall>y\<in>set (map (unat \<circ> snd) (?f batch)). x \<le> y"
    using old new mono by fastforce
  have "sorted (map (unat \<circ> snd) (?f (statsSent ?st')))"
    using s1 s2 s3 by (simp add: b sorted_append)
  moreover have "\<forall>p\<in>set (?f (statsSent ?st')). unat (snd p) \<le> ?N"
    using old new mono b by fastforce
  ultimately show ?case by blast
qed


lemma loop_counter_map:
  "map_of (emissionCounter (readFromCollector_loop rm col hs sc start evs)) c
     = (if 0 < countedFor rm col c evs then Some (of_nat (countedFor rm col c evs)) else None)"
proof (induction evs rule: rev_induct)
  case Nil
  then show ?case
    by (simp add: readFromCollector_loop_def startDispatcher_def countedFor_def)
next
  case (snoc ev evs)
  let ?st = "readFromCollector_loop rm col hs sc start evs"
  have cnt: "emissionCount ?st c' = of_nat (countedFor rm col c' evs)" for c'
    by (rule loop_emissionCount)
  show ?case
    using snoc
    by (simp add: loop_snoc step_emissionCounter update_conv' cnt countedFor_snoc isCounted_def)
qed

lemma loop_start:
  "statsSent (readFromCollector_loop rm col hs sc start []) = []"
  "lastEmission (readFromCollector_loop rm col hs sc start []) = start"
  "emissionCounter (readFromCollector_loop rm col hs sc start []) = []"
  by (simp_all add: readFromCollector_loop_def startDispatcher_def)

text \<open>
  Claim C6. The counter of a source is never reset: after any run it is the number of
  metrics counted for that source since the dispatcher started (as a 64-bit unsigned
  value), the counter table holds exactly the sources counted at least once, each once,
  and a round adds one to the counter of its source or leaves the counters alone,
  whether or not the round emits statistics; emitting does not touch the counters. A
  round emits when its metric is not blacklisted, a statistics channel was given and the
  clock is later than the last emission by more than the interval; it then sends the
  whole counter table as it stands after the round, that is, for every source counted so
  far its total since the start, and sets the time of the last emission to the clock
  reading taken after the sending. A round that does not emit sends nothing and leaves
  that time alone. The dispatcher starts with no counters, nothing sent and the time of
  its start as the last emission. Hence every pair sent carries the number of metrics
  counted for its source up to some round of the run and, for a run of fewer than
  \<open>2^64\<close> metrics, the counts sent for any one source never decrease.
\<close>

theorem emission_counts_are_cumulative:
  "emissionCount (readFromCollector rm col hs sc start evs) c = of_nat (countedFor rm col c evs)
   \<and> map_of (emissionCounter (readFromCollector_loop rm col hs sc start evs)) c
       = (if 0 < countedFor rm col c evs then Some (of_nat (countedFor rm col c evs)) else None)
   \<and> distinct (map fst (emissionCounter (readFromCollector_loop rm col hs sc start evs)))
   \<and> statsSent (readFromCollector_loop rm col hs sc start []) = []
   \<and> lastEmission (readFromCollector_loop rm col hs sc start []) = start
   \<and> statsSent (readFromCollector_loop rm col hs sc start (evs @ [ev]))
       = statsSent (readFromCollector_loop rm col hs sc start evs)
         @ (if statsDue rm col sc (readFromCollector_loop rm col hs sc start evs) ev
            then emissionCounter (readFromCollector_loop rm col hs sc start (evs @ [ev]))
            else [])
   \<and> lastEmission (readFromCollector_loop rm col hs sc start (evs @ [ev]))
       = (if statsDue rm col sc (readFromCollector_loop rm col hs sc start evs) ev
          then snd (snd ev)
          else lastEmission (readFromCollector_loop rm col hs sc start evs))
   \<and> statsSent (readFromCollector rm col hs sc start evs)
       = statsSent (readFromCollector_loop rm col hs sc start evs)
   \<and> (\<forall>n. (c, n) \<in> set (statsSent (readFromCollector rm col hs sc start evs)) \<longrightarrow>
          (\<exists>k. 0 < k \<and> k \<le> length evs \<and> n = of_nat (countedFor rm col c (take k evs))))
   \<and> (length evs < 2 ^ 64 \<longrightarrow>
        sorted (map (unat \<circ> snd)
          (filter (\<lambda>p. fst p = c) (statsSent (readFromCollector rm col hs sc start evs)))))
   \<and> emissionCount (readFromCollector_step rm col hs sc st ev) c
       = emissionCount st c + (if isCounted rm col c ev then 1 else 0)
   \<and> emissionCounter (emitCollectorStats data st) = emissionCounter st"
proof -
  have a: "emissionCount (readFromCollector rm col hs sc start evs) c
             = of_nat (countedFor rm col c evs)"
    by (simp add: readFromCollector_loop_eq loop_emissionCount)
  have b: "statsSent (readFromCollector_loop rm col hs sc start (evs @ [ev]))
       = statsSent (readFromCollector_loop rm col hs sc start evs)
         @ (if statsDue rm col sc (readFromCollector_loop rm col hs sc start evs) ev
            then emissionCounter (readFromCollector_loop rm col hs sc start (evs @ [ev]))
            else [])"
    unfolding loop_snoc statsDue_def by (rule step_statsSent_eq)
  have d: "lastEmission (readFromCollector_loop rm col hs sc start (evs @ [ev]))
       = (if statsDue rm col sc (readFromCollector_loop rm col hs sc start evs) ev
          then snd (snd ev)
          else lastEmission (readFromCollector_loop rm col hs sc start evs))"
    unfolding loop_snoc statsDue_def by (rule step_lastEmission)
  have e: "statsSent (readFromCollector rm col hs sc start evs)
       = statsSent (readFromCollector_loop rm col hs sc start evs)"
    by (simp add: readFromCollector_loop_eq)
  have g: "\<forall>n. (c, n) \<in> set (statsSent (readFromCollector rm col hs sc start evs)) \<longrightarrow>
          (\<exists>k. 0 < k \<and> k \<le> length evs \<and> n = of_nat (countedFor rm col c (take k evs)))"
    using loop_stats_are_totals [of c _ rm col hs sc start evs] by (simp add: e)
  have h: "length evs < 2 ^ 64 \<longrightarrow>
        sorted (map (unat \<circ> snd)
          (filter (\<lambda>p. fst p = c) (statsSent (readFromCollector rm col hs sc start evs))))"
    using loop_stats_sorted [of evs c rm col hs sc start] by (simp add: e)
  have i: "emissionCounter (emitCollectorStats data st) = emissionCounter st"
    by (simp add: emitCollectorStats_def)
  show ?thesis
    by (intro conjI)
       (fact a, fact loop_counter_map, fact loop_distinct, fact loop_start(1),
        fact loop_start(2), fact b, fact d, fact e, fact g, fact h,
        fact step_emissionCount, fact i)
qed

lemma start_sel:
  "emissionCounter (startDispatcher t) = []" "lastEmission (startDispatcher t) = t"
  "statsSent (startDispatcher t) = []"
  by (simp_all add: startDispatcher_def)

lemma readFromCollector_statsSent:
  "statsSent (readFromCollector rm col hs sc start evs)
     = statsSent (readFromCollector_loop rm col hs sc start evs)"
  by (simp add: readFromCollector_def)

lemmas dispatch_eval = readFromCollector_statsSent readFromCollector_loop_def
  step_statsSent_eq step_lastEmission step_emissionCounter start_sel
  resolveSource_def emissionCount_def statDuration_def Let_def

text \<open>
  A run with interval one second, started at time 0. The first round, two seconds in,
  emits. The second, half a second later, does not, although more than the interval has
  passed since the start: the time of the last emission was set by the first round. The
  third, at four seconds, emits again, with the totals of both sources.
\<close>

theorem emission_counts_are_cumulative_witness:
  "statsDue (\<lambda>pattern text. False)
       \<lparr>CollectorName = ''Test'', CanonicalName = ''Test'', Interval = 1,
        Prefix = [], Blacklist = [], CollectorType = ''poller''\<rparr> 1
       (readFromCollector_loop (\<lambda>pattern text. False)
          \<lparr>CollectorName = ''Test'', CanonicalName = ''Test'', Interval = 1,
           Prefix = [], Blacklist = [], CollectorType = ''poller''\<rparr> [] 1 0
          [(metric_New ''hello'' :: int Metric, 2000000000, 2000000001),
           (AddDimension ''collectorCanonicalName'' ''Foobar'' (metric_New ''world''),
            2500000000, 2500000000)])
       (AddDimension ''collectorCanonicalName'' ''Foobar'' (metric_New ''world''),
        4000000000, 4000000002)
   \<and> \<not> statsDue (\<lambda>pattern text. False)
       \<lparr>CollectorName = ''Test'', CanonicalName = ''Test'', Interval = 1,
        Prefix = [], Blacklist = [], CollectorType = ''poller''\<rparr> 1
       (readFromCollector_loop (\<lambda>pattern text. False)
          \<lparr>CollectorName = ''Test'', CanonicalName = ''Test'', Interval = 1,
           Prefix = [], Blacklist = [], CollectorType = ''poller''\<rparr> [] 1 0
          [(metric_New ''hello'' :: int Metric, 2000000000, 2000000001)])
       (AddDimension ''collectorCanonicalName'' ''Foobar'' (metric_New ''world''),
        2500000000, 2500000000)
   \<and> statsSent (readFromCollector (\<lambda>pattern text. False)
       \<lparr>CollectorName = ''Test'', CanonicalName = ''Test'', Interval = 1,
        Prefix = [], Blacklist = [], CollectorType = ''poller''\<rparr> [] 1 0
       [(metric_New ''hello'' :: int Metric, 2000000000, 2000000001),
        (AddDimension ''collectorCanonicalName'' ''Foobar'' (metric_New ''world''),
         2500000000, 2500000000),
        (AddDimension ''collectorCanonicalName'' ''Foobar'' (metric_New ''world''),
         4000000000, 4000000002)])
     = [(''Test'', 1), (''Test'', 1), (''Foobar'', 2)]
   \<and> lastEmission (readFromCollector_loop (\<lambda>pattern text. False)
       \<lparr>CollectorName = ''Test'', CanonicalName = ''Test'', Interval = 1,
        Prefix = [], Blacklist = [], CollectorType = ''poller''\<rparr> [] 1 0
       ([(metric_New ''hello'' :: int Metric, 2000000000, 2000000001),
         (AddDimension ''collectorCanonicalName'' ''Foobar'' (metric_New ''world''),
          2500000000, 2500000000)]
        @ [(AddDimension ''collectorCanonicalName'' ''Foobar'' (metric_New ''world''),
            4000000000, 4000000002)]))
     = 4000000002
   \<and> lastEmission (readFromCollector_loop (\<lambda>pattern text. False)
       \<lparr>CollectorName = ''Test'', CanonicalName = ''Test'', Interval = 1,
        Prefix = [], Blacklist = [], CollectorType = ''poller''\<rparr> [] 1 0
       [(metric_New ''hello'' :: int Metric, 2000000000, 2000000001),
        (AddDimension ''collectorCanonicalName'' ''Foobar'' (metric_New ''world''),
         2500000000, 2500000000)])
     = 2000000001
   \<and> sorted (map (unat \<circ> snd) (filter (\<lambda>p. fst p = ''Foobar'')
       (statsSent (readFromCollector (\<lambda>pattern text. False)
          \<lparr>CollectorName = ''Test'', CanonicalName = ''Test'', Interval = 1,
           Prefix = [], Blacklist = [], CollectorType = ''poller''\<rparr> [] 1 0
          [(metric_New ''hello'' :: int Metric, 2000000000, 2000000001),
           (AddDimension ''collectorCanonicalName'' ''Foobar'' (metric_New ''world''),
            2500000000, 2500000000),
           (AddDimension ''collectorCanonicalName'' ''Foobar'' (metric_New ''world''),
            4000000000, 4000000002)]))))"
  using emission_counts_are_cumulative
    [of "\<lambda>pattern text. False"
        "\<lparr>CollectorName = ''Test'', CanonicalName = ''Test'', Interval = 1,
          Prefix = [], Blacklist = [], CollectorType = ''poller''\<rparr>" "[]" 1 0
        "[(metric_New ''hello'' :: int Metric, 2000000000, 2000000001),
          (AddDimension ''collectorCanonicalName'' ''Foobar'' (metric_New ''world''),
           2500000000, 2500000000),
          (AddDimension ''collectorCanonicalName'' ''Foobar'' (metric_New ''world''),
           4000000000, 4000000002)]" "''Foobar''"]
  by (simp add: dispatch_eval statsDue_def metric_New_def AddDimension_def RemoveDimension_def
        GetDimensionValue_def)

section \<open>Name sanitization\<close>

lemma byte_val: "n < 256 \<Longrightarrow> (of_char (char_of (n::nat)) :: nat) = n"
  by simp

lemma mod_shift: "x < m \<Longrightarrow> (k * m + x) mod m = (x::nat)"
  by simp

lemma decode1: "q \<le> 0x7F \<Longrightarrow> DecodeRuneInString (char_of q # rest) = (q, 1)"
  by (simp add: DecodeRuneInString.simps firstSize_def acceptLo_def acceptHi_def Let_def split del: if_split)

lemma decode2:
  assumes "0x80 \<le> q" "q \<le> 0x7FF"
  shows "DecodeRuneInString (char_of (0xC0 + q div 64) # char_of (0x80 + q mod 64) # rest) = (q, 2)"
proof -
  define a where "a = q div 64"
  define b where "b = q mod 64"
  have q: "a * 64 + b = q" by (simp add: a_def b_def)
  have ab: "2 \<le> a" "a < 32" "b < 64" using assms by (auto simp: a_def b_def)
  have b0: "(of_char (char_of (0xC0 + a)) :: nat) = 0xC0 + a" using ab by (intro byte_val) simp
  have b1: "(of_char (char_of (0x80 + b)) :: nat) = 0x80 + b" using ab by (intro byte_val) simp
  have m0: "(0xC0 + a) mod 32 = a" using mod_shift [of a 32 6] ab by simp
  have m1: "(0x80 + b) mod 64 = b" using mod_shift [of b 64 2] ab by simp
  have "DecodeRuneInString (char_of (0xC0 + a) # char_of (0x80 + b) # rest) = (q, 2)"
    using ab q by (simp add: DecodeRuneInString.simps firstSize_def acceptLo_def acceptHi_def Let_def b0 b1 m0 m1 split del: if_split)
  then show ?thesis by (simp only: a_def b_def)
qed

lemma decode3:
  assumes "0x800 \<le> q" "q \<le> 0xFFFF" "\<not> (0xD800 \<le> q \<and> q \<le> 0xDFFF)"
  shows "DecodeRuneInString (char_of (0xE0 + q div 4096) # char_of (0x80 + (q div 64) mod 64)
            # char_of (0x80 + q mod 64) # rest) = (q, 3)"
proof -
  define a where "a = q div 4096"
  define b where "b = (q div 64) mod 64"
  define c where "c = q mod 64"
  have "q div 64 div 64 = a" by (simp add: a_def div_mult2_eq)
  then have "q div 64 = a * 64 + b"
    using div_mult_mod_eq [of "q div 64" 64] by (simp add: b_def)
  then have q: "a * 4096 + b * 64 + c = q"
    using div_mult_mod_eq [of q 64] by (simp add: c_def)
  have abc: "a < 16" "b < 64" "c < 64" using assms by (auto simp: a_def b_def c_def)
  have lo: "a = 0 \<Longrightarrow> 32 \<le> b" using assms(1) q abc by simp
  have hi: "a = 13 \<Longrightarrow> b < 32" using assms(3) q abc by simp
  have b0: "(of_char (char_of (0xE0 + a)) :: nat) = 0xE0 + a" using abc by (intro byte_val) simp
  have b1: "(of_char (char_of (0x80 + b)) :: nat) = 0x80 + b" using abc by (intro byte_val) simp
  have b2: "(of_char (char_of (0x80 + c)) :: nat) = 0x80 + c" using abc by (intro byte_val) simp
  have m0: "(0xE0 + a) mod 16 = a" using mod_shift [of a 16 14] abc by simp
  have m1: "(0x80 + b) mod 64 = b" using mod_shift [of b 64 2] abc by simp
  have m2: "(0x80 + c) mod 64 = c" using mod_shift [of c 64 2] abc by simp
  have "DecodeRuneInString (char_of (0xE0 + a) # char_of (0x80 + b) # char_of (0x80 + c) # rest)
          = (q, 3)"
  proof -
    consider "a = 0" | "a = 13" | "a \<noteq> 0" "a \<noteq> 13" by blast
    then show ?thesis
    proof cases
      case 1
      with abc q lo show ?thesis
        by (simp add: DecodeRuneInString.simps firstSize_def acceptLo_def acceptHi_def Let_def b0 b1 b2 m0 m1 m2
              split del: if_split)
    next
      case 2
      with abc q hi show ?thesis
        by (simp add: DecodeRuneInString.simps firstSize_def acceptLo_def acceptHi_def Let_def b0 b1 b2 m0 m1 m2
              split del: if_split)
    next
      case 3
      with abc q show ?thesis
        by (simp add: DecodeRuneInString.simps firstSize_def acceptLo_def acceptHi_def Let_def b0 b1 b2 m0 m1 m2
              split del: if_split)
    qed
  qed
  then show ?thesis by (simp only: a_def b_def c_def)
qed

lemma decode4:
  assumes "0x10000 \<le> q" "q \<le> 0x10FFFF"
  shows "DecodeRuneInString (char_of (0xF0 + q div 262144) # char_of (0x80 + (q div 4096) mod 64)
            # char_of (0x80 + (q div 64) mod 64) # char_of (0x80 + q mod 64) # rest) = (q, 4)"
proof -
  define a where "a = q div 262144"
  define b where "b = (q div 4096) mod 64"
  define c where "c = (q div 64) mod 64"
  define d where "d = q mod 64"
  have "q div 64 div 64 = q div 4096" by (simp add: div_mult2_eq)
  then have e1: "q div 64 = (q div 4096) * 64 + c"
    using div_mult_mod_eq [of "q div 64" 64] by (simp add: c_def)
  have "q div 4096 div 64 = a" by (simp add: a_def div_mult2_eq)
  then have e2: "q div 4096 = a * 64 + b"
    using div_mult_mod_eq [of "q div 4096" 64] by (simp add: b_def)
  have q: "a * 262144 + b * 4096 + c * 64 + d = q"
    using div_mult_mod_eq [of q 64] e1 e2 by (simp add: d_def)
  have abcd: "a < 5" "b < 64" "c < 64" "d < 64" using assms by (auto simp: a_def b_def c_def d_def)
  have lo: "a = 0 \<Longrightarrow> 16 \<le> b" using assms(1) q abcd by simp
  have hi: "a = 4 \<Longrightarrow> b < 16" using assms(2) q abcd by simp
  have b0: "(of_char (char_of (0xF0 + a)) :: nat) = 0xF0 + a" using abcd by (intro byte_val) simp
  have b1: "(of_char (char_of (0x80 + b)) :: nat) = 0x80 + b" using abcd by (intro byte_val) simp
  have b2: "(of_char (char_of (0x80 + c)) :: nat) = 0x80 + c" using abcd by (intro byte_val) simp
  have b3: "(of_char (char_of (0x80 + d)) :: nat) = 0x80 + d" using abcd by (intro byte_val) simp
  have m0: "(0xF0 + a) mod 8 = a" using mod_shift [of a 8 30] abcd by simp
  have m1: "(0x80 + b) mod 64 = b" using mod_shift [of b 64 2] abcd by simp
  have m2: "(0x80 + c) mod 64 = c" using mod_shift [of c 64 2] abcd by simp
  have m3: "(0x80 + d) mod 64 = d" using mod_shift [of d 64 2] abcd by simp
  have "DecodeRuneInString (char_of (0xF0 + a) # char_of (0x80 + b) # char_of (0x80 + c)
            # char_of (0x80 + d) # rest) = (q, 4)"
  proof -
    consider "a = 0" | "a = 4" | "a \<noteq> 0" "a \<noteq> 4" by blast
    then show ?thesis
    proof cases
      case 1
      with abcd q lo show ?thesis
        by (simp add: DecodeRuneInString.simps firstSize_def acceptLo_def acceptHi_def Let_def b0 b1 b2 b3 m0 m1 m2 m3
              split del: if_split)
    next
      case 2
      with abcd q hi show ?thesis
        by (simp add: DecodeRuneInString.simps firstSize_def acceptLo_def acceptHi_def Let_def b0 b1 b2 b3 m0 m1 m2 m3
              split del: if_split)
    next
      case 3
      with abcd q show ?thesis
        by (simp add: DecodeRuneInString.simps firstSize_def acceptLo_def acceptHi_def Let_def b0 b1 b2 b3 m0 m1 m2 m3
              split del: if_split)
    qed
  qed
  then show ?thesis by (simp only: a_def b_def c_def d_def)
qed

lemma decode_encode:
  assumes "validRune q"
  shows "DecodeRuneInString (string_of_rune q @ rest) = (q, length (string_of_rune q))"
proof -
  from assms have v: "q \<le> 0x10FFFF" "\<not> (0xD800 \<le> q \<and> q \<le> 0xDFFF)"
    by (simp_all add: validRune_def)
  have ns: "(0x10FFFF < q \<or> 0xD800 \<le> q \<and> q \<le> 0xDFFF) = False"
    using v by auto
  have ns3: "(0x10FFFF < q) = False"
    using v by auto
  have ns2: "(0xD800 \<le> q \<and> q \<le> 0xDFFF) = False"
    using v by auto
  consider "q \<le> 0x7F" | "0x80 \<le> q" "q \<le> 0x7FF" | "0x800 \<le> q" "q \<le> 0xFFFF"
    | "0x10000 \<le> q" by linarith
  then show ?thesis
  proof cases
    case 1
    then have e: "string_of_rune q = [char_of q]" by (simp add: string_of_rune_def)
    show ?thesis unfolding e using decode1 [OF 1, of rest] by simp
  next
    case 2
    then have e: "string_of_rune q = [char_of (0xC0 + q div 64), char_of (0x80 + q mod 64)]"
      by (simp add: string_of_rune_def)
    show ?thesis unfolding e using decode2 [OF 2, of rest] by simp
  next
    case 3
    then have e: "string_of_rune q = [char_of (0xE0 + q div 4096),
        char_of (0x80 + (q div 64) mod 64), char_of (0x80 + q mod 64)]"
      by (simp add: string_of_rune_def Let_def ns ns2 ns3)
    show ?thesis unfolding e using decode3 [OF 3 v(2), of rest] by simp
  next
    case 4
    then have e: "string_of_rune q = [char_of (0xF0 + q div 262144),
        char_of (0x80 + (q div 4096) mod 64), char_of (0x80 + (q div 64) mod 64),
        char_of (0x80 + q mod 64)]"
      by (simp add: string_of_rune_def Let_def ns ns2 ns3)
    show ?thesis unfolding e using decode4 [OF 4 v(1), of rest] by simp
  qed
qed

lemma mod_window: "k * m \<le> s \<Longrightarrow> s < k * m + m \<Longrightarrow> s mod m = s - k * (m::nat)"
  using mod_shift [of "s - k * m" m k] by simp

lemma decode_ascii:
  "(of_char c0 :: nat) < 0x80 \<Longrightarrow> DecodeRuneInString (c0 # rest) = (of_char c0, 1)"
  by (simp add: DecodeRuneInString.simps Let_def split del: if_split)

lemma decode_nonascii:
  assumes "\<not> (of_char c0 :: nat) < 0x80"
  shows "0x80 \<le> fst (DecodeRuneInString (c0 # rest))"
proof -
  define s0 where "s0 = (of_char c0 :: nat)"
  define s1 where "s1 = (of_char (rest ! 0) :: nat)"
  have two: "2 * 64 \<le> (s0 mod 32) * 64" if "0xC2 \<le> s0" "firstSize s0 \<le> 2"
  proof -
    from that have "s0 < 0xE0" by (simp add: firstSize_def split: if_splits)
    with that(1) have "s0 mod 32 = s0 - 6 * 32" by (intro mod_window) simp_all
    with that(1) show ?thesis by simp
  qed
  have three: "0x80 \<le> (s0 mod 16) * 4096 + (s1 mod 64) * 64"
    if "\<not> firstSize s0 \<le> 2" "firstSize s0 \<le> 3" "\<not> s1 < acceptLo s0" "s1 \<le> 0xBF"
  proof -
    from that have r: "0xE0 \<le> s0" "s0 < 0xF0" by (simp_all add: firstSize_def split: if_splits)
    then have m: "s0 mod 16 = s0 - 14 * 16" by (intro mod_window) simp_all
    show ?thesis
    proof (cases "s0 = 0xE0")
      case True
      with that have "0xA0 \<le> s1" by (simp add: acceptLo_def)
      with that(4) have "s1 mod 64 = s1 - 2 * 64" by (intro mod_window) simp_all
      with \<open>0xA0 \<le> s1\<close> show ?thesis by simp
    next
      case False
      with r m have "1 \<le> s0 mod 16" by simp
      then have "4096 \<le> (s0 mod 16) * 4096" by simp
      then show ?thesis by simp
    qed
  qed
  have four: "0x80 \<le> (s0 mod 8) * 262144 + (s1 mod 64) * 4096"
    if "\<not> firstSize s0 \<le> 3" "s0 \<le> 0xF4" "\<not> s1 < acceptLo s0" "s1 \<le> 0xBF"
  proof -
    from that have r: "0xF0 \<le> s0" by (simp add: firstSize_def split: if_splits)
    with that(2) have m: "s0 mod 8 = s0 - 30 * 8" by (intro mod_window) simp_all
    show ?thesis
    proof (cases "s0 = 0xF0")
      case True
      with that have "0x90 \<le> s1" by (simp add: acceptLo_def)
      with that(4) have "s1 mod 64 = s1 - 2 * 64" by (intro mod_window) simp_all
      with \<open>0x90 \<le> s1\<close> have "16 \<le> s1 mod 64" by simp
      then have "16 * 4096 \<le> (s1 mod 64) * 4096" by (rule mult_le_mono1)
      then show ?thesis by simp
    next
      case False
      with r m have "1 \<le> s0 mod 8" by simp
      then have "262144 \<le> (s0 mod 8) * 262144" by simp
      then show ?thesis by simp
    qed
  qed
  have hi: "s1 \<le> 0xBF" if "\<not> acceptHi s0 < s1"
    using that by (simp add: acceptHi_def split: if_splits)
  show ?thesis
    using assms two three four hi
    unfolding DecodeRuneInString.simps Let_def s0_def [symmetric] s1_def [symmetric]
    by (auto simp: RuneError_def simp del: mult_numeral_left_semiring_numeral)
qed

lemma validRune_RuneError: "validRune RuneError"
  by (simp add: validRune_def RuneError_def)

lemma string_of_rune_invalid: "\<not> validRune q \<Longrightarrow> string_of_rune q = string_of_rune RuneError"
  by (auto simp: validRune_def string_of_rune_def RuneError_def Let_def)

lemma string_of_rune_ne: "string_of_rune q \<noteq> []"
  by (simp add: string_of_rune_def Let_def)

lemma rewritten_low: "rewritten c \<Longrightarrow> (of_char c :: nat) < 0x30"
  by (auto simp: rewritten_def)

lemma rewritten_ascii: "rewritten c \<Longrightarrow> (of_char c :: nat) < 0x80"
  by (auto simp: rewritten_def)

lemma string_of_rune_high:
  assumes "0x7F < q" "c \<in> set (string_of_rune q)"
  shows "0x80 \<le> (of_char c :: nat)"
proof -
  have valid: "0x80 \<le> (of_char c :: nat)"
    if v: "validRune r" and h: "0x7F < r" and c: "c \<in> set (string_of_rune r)" for r
  proof -
    from v have v': "r \<le> 0x10FFFF" "\<not> (0xD800 \<le> r \<and> r \<le> 0xDFFF)"
      by (simp_all add: validRune_def)
    have ns: "(0x10FFFF < r \<or> 0xD800 \<le> r \<and> r \<le> 0xDFFF) = False"
      "(0xD800 \<le> r \<and> r \<le> 0xDFFF) = False" "(0x10FFFF < r) = False"
      using v' by auto
    have d1: "r div 64 < 32" if "r \<le> 0x7FF" using that by simp
    have d2: "r div 4096 < 16" if "r \<le> 0xFFFF" using that by simp
    have d3: "r div 262144 < 5" using v'(1) by simp
    have m: "x mod 64 < (64::nat)" for x by simp
    have byte: "0x80 \<le> (of_char (char_of (k + x)) :: nat)" if "0x80 \<le> k" "k + x < 256" for k x :: nat
      using that by simp
    consider "r \<le> 0x7FF" | "0x7FF < r" "r \<le> 0xFFFF" | "0xFFFF < r" by linarith
    then show ?thesis
    proof cases
      case 1
      with h c d1 show ?thesis
        by (auto simp: string_of_rune_def intro!: byte)
    next
      case 2
      with h c d2 show ?thesis
        using m [of "r div 64"] m [of r]
        by (auto simp: string_of_rune_def Let_def ns intro!: byte)
    next
      case 3
      with h c d3 show ?thesis
        using m [of "r div 4096"] m [of "r div 64"] m [of r]
        by (auto simp: string_of_rune_def Let_def ns intro!: byte)
    qed
  qed
  show ?thesis
  proof (cases "validRune q")
    case True
    then show ?thesis using valid assms by blast
  next
    case False
    with assms(2) have "c \<in> set (string_of_rune RuneError)"
      by (simp add: string_of_rune_invalid)
    then show ?thesis
      using valid [OF validRune_RuneError] by (simp add: RuneError_def)
  qed
qed

lemma ToLower_idem:
  assumes "caseTableOK ct"
  shows "unicode_ToLower ct (unicode_ToLower ct r) = unicode_ToLower ct r"
proof (cases "r \<le> 0x7F")
  case True
  then show ?thesis by (simp add: unicode_ToLower_def)
next
  case False
  then show ?thesis using assms by (simp add: caseTableOK_def unicode_ToLower_def)
qed

lemma lowerFirst_idem:
  assumes ok: "caseTableOK ct"
  shows "lowerFirst ct (lowerFirst ct s) = lowerFirst ct s"
proof (cases "s = []")
  case True
  then show ?thesis by (simp add: lowerFirst_def)
next
  case False
  obtain r n where d: "DecodeRuneInString s = (r, n)" by (cases "DecodeRuneInString s")
  define q where "q = unicode_ToLower ct r"
  define q' where "q' = (if validRune q then q else RuneError)"
  have out: "lowerFirst ct s = string_of_rune q' @ drop n s"
    using False d by (simp add: lowerFirst_def q_def q'_def string_of_rune_invalid)
  have v: "validRune q'" by (simp add: q'_def validRune_RuneError)
  have fixed: "unicode_ToLower ct q' = q'"
  proof (cases "validRune q")
    case True
    then show ?thesis using ToLower_idem [OF ok, of r] by (simp add: q'_def q_def)
  next
    case False
    then show ?thesis using ok
      by (simp add: q'_def caseTableOK_def unicode_ToLower_def RuneError_def)
  qed
  have ne: "string_of_rune q' @ drop n s \<noteq> []" by (simp add: string_of_rune_ne)
  show ?thesis
    unfolding out
    using ne decode_encode [OF v, of "drop n s"]
    by (simp add: lowerFirst_def fixed)
qed

lemma nameEscaper_byte_clean: "c \<in> set (nameEscaper_byte c0) \<Longrightarrow> \<not> rewritten c"
  by (auto simp: nameEscaper_byte_def rewritten_def split: if_splits)

lemma nameEscaper_Replace_clean: "c \<in> set (nameEscaper_Replace x) \<Longrightarrow> \<not> rewritten c"
  by (auto simp: nameEscaper_Replace_def dest: nameEscaper_byte_clean)

lemma nameEscaper_byte_id: "\<not> rewritten c \<Longrightarrow> nameEscaper_byte c = [c]"
  by (simp add: nameEscaper_byte_def rewritten_def)

lemma nameEscaper_Replace_id: "\<forall>c\<in>set s. \<not> rewritten c \<Longrightarrow> nameEscaper_Replace s = s"
  by (induction s) (simp_all add: nameEscaper_Replace_def nameEscaper_byte_id)

lemma ascii_lower_clean:
  assumes "\<not> rewritten c0" "(of_char c0 :: nat) < 0x80"
  shows "\<not> rewritten (char_of (unicode_ToLower ct (of_char c0)))"
proof (cases "0x41 \<le> (of_char c0 :: nat) \<and> (of_char c0 :: nat) \<le> 0x5A")
  case True
  define k where "k = (of_char c0 :: nat)"
  from True have k: "0x41 \<le> k" "k \<le> 0x5A" by (simp_all add: k_def)
  have "unicode_ToLower ct k = k + 0x20" using k by (simp add: unicode_ToLower_def)
  moreover have "(of_char (char_of (k + 0x20)) :: nat) = k + 0x20" using k by simp
  ultimately have ge: "0x61 \<le> (of_char (char_of (unicode_ToLower ct k)) :: nat)"
    using k by simp
  have "\<not> rewritten (char_of (unicode_ToLower ct k))"
  proof
    assume "rewritten (char_of (unicode_ToLower ct k))"
    then have "(of_char (char_of (unicode_ToLower ct k)) :: nat) < 0x30"
      by (rule rewritten_low)
    with ge show False by simp
  qed
  then show ?thesis unfolding k_def .
next
  case False
  with assms show ?thesis by (auto simp: unicode_ToLower_def)
qed

lemma lowerFirst_clean:
  assumes ok: "caseTableOK ct" and clean: "\<forall>c\<in>set z. \<not> rewritten c"
    and c: "c \<in> set (lowerFirst ct z)"
  shows "\<not> rewritten c"
proof (cases z)
  case Nil
  with c show ?thesis by (simp add: lowerFirst_def)
next
  case (Cons c0 rest)
  obtain r n where d: "DecodeRuneInString z = (r, n)" by (cases "DecodeRuneInString z")
  define q where "q = unicode_ToLower ct r"
  from c Cons d have "c \<in> set (string_of_rune q) \<or> c \<in> set (drop n z)"
    by (simp add: lowerFirst_def q_def)
  then show ?thesis
  proof
    assume "c \<in> set (drop n z)"
    then have "c \<in> set z" by (rule in_set_dropD)
    with clean show ?thesis by blast
  next
    assume cq: "c \<in> set (string_of_rune q)"
    show ?thesis
    proof (cases "0x7F < q")
      case True
      then show ?thesis using string_of_rune_high [OF True cq] rewritten_ascii [of c] by auto
    next
      case False
      then have cc: "c = char_of q" using cq by (simp add: string_of_rune_def)
      show ?thesis
      proof (cases "(of_char c0 :: nat) < 0x80")
        case True
        then have "r = of_char c0" using d Cons by (simp add: decode_ascii)
        then show ?thesis
          using ascii_lower_clean [of c0 ct] clean Cons True by (simp add: cc q_def)
      next
        case na: False
        then have r: "0x80 \<le> r" using decode_nonascii [OF na, of rest] d Cons by simp
        then have "q = ct r" by (simp add: q_def unicode_ToLower_def)
        then show ?thesis using ok r False by (simp add: cc caseTableOK_def)
      qed
    qed
  qed
qed

text \<open>
  Claim C9. Sanitizing a name twice gives the same result as sanitizing it once, for
  every byte string and every case table that meets the three conditions above.
\<close>

theorem sanitize_idempotent:
  assumes "caseTableOK caseTable"
  shows "sanitize caseTable (sanitize caseTable x) = sanitize caseTable x"
proof -
  have "\<forall>c\<in>set (sanitize caseTable x). \<not> rewritten c"
    unfolding sanitize_def
    using lowerFirst_clean [OF assms, of "nameEscaper_Replace x"] nameEscaper_Replace_clean
    by blast
  then have "nameEscaper_Replace (sanitize caseTable x) = sanitize caseTable x"
    by (rule nameEscaper_Replace_id)
  then show ?thesis
    using lowerFirst_idem [OF assms, of "nameEscaper_Replace x"] by (simp add: sanitize_def)
qed

lemma latin1CaseTable_OK: "caseTableOK latin1CaseTable"
  by (auto simp: caseTableOK_def latin1CaseTable_def unicode_ToLower_def RuneError_def
        rewritten_def char_of_nat_eval)

theorem sanitize_idempotent_witness:
  "sanitize latin1CaseTable [CHR 0xC3, CHR 0x89, CHR ''.'', CHR ''A'', CHR '' '', CHR ''$'']
     = [CHR 0xC3, CHR 0xA9, CHR ''_'', CHR ''A'', CHR ''_'']
   \<and> sanitize latin1CaseTable
         (sanitize latin1CaseTable [CHR 0xC3, CHR 0x89, CHR ''.'', CHR ''A'', CHR '' '', CHR ''$''])
     = [CHR 0xC3, CHR 0xA9, CHR ''_'', CHR ''A'', CHR ''_'']"
  using sanitize_idempotent [OF latin1CaseTable_OK,
      of "[CHR 0xC3, CHR 0x89, CHR ''.'', CHR ''A'', CHR '' '', CHR ''$'']"]
  by (simp add: string_eval latin1CaseTable_def)


end
